theory Spec2Isabelle
  imports Main "HOL-Library.Word" "HOL-Library.Finite_Map" "HOL-Library.Signed_Division"
begin

section \<open>Data model (node and message declarations)\<close>

text \<open>
  Go's \<^verbatim>\<open>uint\<close> and \<^verbatim>\<open>int\<close> are 64-bit machine integers on the usual targets.
  Both are words of 64 bits here: addition wraps, a \<^verbatim>\<open>uint\<close> is compared with the
  unsigned order \<open><\<close> and an \<^verbatim>\<open>int\<close> with the two's complement order \<open><s\<close>.
  The message declaration gives \<^verbatim>\<open>TCMessage.seq\<close> the type \<^verbatim>\<open>uint\<close> while the node
  code assigns it from, and compares it with, \<^verbatim>\<open>int\<close> fields; the node code is
  followed, so \<open>seq\<close> is an \<^verbatim>\<open>int\<close>.
\<close>

type_synonym NodeID = "64 word"
type_synonym goint = "64 word"

record TopologyEntry =
  dst :: NodeID
  dstMPR :: NodeID
  msSeqNum :: goint
  holdUntil :: goint

record RoutingEntry =
  dst :: NodeID
  nextHop :: NodeID
  distance :: goint

text \<open>\<^verbatim>\<open>Bidirectional\<close> is \<^verbatim>\<open>iota\<close> 0, hence the zero value of the type.\<close>

datatype NeighborState = Bidirectional | Unidirectional | MPR

record OneHopNeighborEntry =
  neighborID :: NodeID
  state :: NeighborState
  holdUntil :: goint

record HelloMessage =
  src :: NodeID
  unidir :: "NodeID list"
  bidir :: "NodeID list"
  mpr :: "NodeID list"

record DataMessage =
  src :: NodeID
  dst :: NodeID
  nxtHop :: NodeID
  fromnbr :: NodeID
  data :: string

record TCMessage =
  src :: NodeID
  fromnbr :: NodeID
  seq :: goint
  ms :: "NodeID list"

record NodeMsg =
  msg :: string
  delay :: goint
  dst :: NodeID

text \<open>
  What travels on the untyped channels (\<^verbatim>\<open>chan interface{}\<close>): one of the three message
  kinds, or a value of any other dynamic type.
\<close>

datatype Message = Hello HelloMessage | Data DataMessage | TC TCMessage | OtherValue

text \<open>
  Go maps are finite maps. The inner maps of \<open>twoHopNeighbors\<close>, and \<open>msSet\<close>, are maps
  from a NodeID to itself that the code uses as sets. The channels and the log writers
  are not part of the state: what a node sends is returned as a list of messages.
\<close>

type_synonym OneHopTable = "(NodeID, OneHopNeighborEntry) fmap"
type_synonym IDSet = "(NodeID, NodeID) fmap"
type_synonym TwoHopTable = "(NodeID, IDSet) fmap"
type_synonym TopologyTable = "(NodeID, (NodeID, TopologyEntry) fmap) fmap"

record Node =
  id' :: NodeID
  nodeMsg :: NodeMsg
  topologyTable :: TopologyTable
  tcSequenceNum :: goint
  topologyHoldTime :: goint
  routingTable :: "RoutingEntry list"
  oneHopNeighbors :: OneHopTable
  twoHopNeighbors :: TwoHopTable
  msSet :: IDSet
  currentTime :: goint
  neighborHoldTime :: goint

datatype error = InvalidMessageType | IndexOutOfRange

section \<open>Ranging over a map\<close>

text \<open>
  \<^verbatim>\<open>for k, v := range m\<close> visits every key once, in an order Go leaves open. The model
  visits the keys in ascending order. The loops of \<^verbatim>\<open>calculateMPRs\<close> and the sweeps
  compute tables that no order changes; the lists in the messages that \<^verbatim>\<open>sendHello\<close> and
  \<^verbatim>\<open>sendTC\<close> build follow the order, and nothing proved below depends on it.
\<close>

definition keysOf :: "(NodeID, 'v) fmap \<Rightarrow> NodeID list" where
  "keysOf m = sorted_list_of_fset (fmdom m)"

definition entriesOf :: "(NodeID, 'v) fmap \<Rightarrow> (NodeID \<times> 'v) list" where
  "entriesOf m = List.map_filter (\<lambda>k. map_option (Pair k) (fmlookup m k)) (keysOf m)"

section \<open>HELLO reception\<close>

text \<open>The scan of \<^verbatim>\<open>updateOneHopNeighbors\<close> for the node's own id, with its \<^verbatim>\<open>break\<close>.\<close>

fun checkLinkState :: "NodeID \<Rightarrow> NodeID list \<Rightarrow> OneHopNeighborEntry \<Rightarrow> OneHopNeighborEntry" where
  "checkLinkState i [] entry = entry"
| "checkLinkState i (nodeID # rest) entry =
     (if nodeID = i then entry\<lparr>state := Bidirectional\<rparr> else checkLinkState i rest entry)"

definition updateOneHopNeighbors ::
  "HelloMessage \<Rightarrow> OneHopTable \<Rightarrow> goint \<Rightarrow> NodeID \<Rightarrow> OneHopTable" where
  "updateOneHopNeighbors m oneHop hold i =
     (case fmlookup oneHop (HelloMessage.src m) of
        None \<Rightarrow>
          fmupd (HelloMessage.src m)
            \<lparr>neighborID = HelloMessage.src m, state = Unidirectional,
             OneHopNeighborEntry.holdUntil = hold\<rparr> oneHop
      | Some entry \<Rightarrow>
          fmupd (HelloMessage.src m)
            (checkLinkState i (unidir m @ (bidir m @ mpr m))
               (entry\<lparr>OneHopNeighborEntry.holdUntil := hold\<rparr>)) oneHop)"

text \<open>The loop of \<^verbatim>\<open>updateTwoHopNeighbors\<close>, with its \<^verbatim>\<open>continue\<close> on the own id.\<close>

fun collectTwoHops :: "NodeID \<Rightarrow> NodeID list \<Rightarrow> IDSet \<Rightarrow> IDSet" where
  "collectTwoHops i [] twoHops = twoHops"
| "collectTwoHops i (nodeID # rest) twoHops =
     (if nodeID = i then collectTwoHops i rest twoHops
      else collectTwoHops i rest (fmupd nodeID nodeID twoHops))"

definition updateTwoHopNeighbors :: "HelloMessage \<Rightarrow> TwoHopTable \<Rightarrow> NodeID \<Rightarrow> TwoHopTable" where
  "updateTwoHopNeighbors m twoHop i =
     fmupd (HelloMessage.src m) (collectTwoHops i (unidir m @ bidir m) fmempty) twoHop"

subsection \<open>MPR selection\<close>

text \<open>The zero value that \<^verbatim>\<open>ohn, _ := oneHopNeighbors[node]\<close> yields for a missing key.\<close>

definition zeroOneHopNeighborEntry :: OneHopNeighborEntry where
  "zeroOneHopNeighborEntry =
     \<lparr>neighborID = 0, state = Bidirectional, OneHopNeighborEntry.holdUntil = 0\<rparr>"

definition lookupOneHop :: "OneHopTable \<Rightarrow> NodeID \<Rightarrow> OneHopNeighborEntry" where
  "lookupOneHop oneHop node =
     (case fmlookup oneHop node of None \<Rightarrow> zeroOneHopNeighborEntry | Some e \<Rightarrow> e)"

text \<open>\<^verbatim>\<open>for k, _ := range v { remainingTwoHops[k] = k }\<close>\<close>

fun addKeys :: "NodeID list \<Rightarrow> IDSet \<Rightarrow> IDSet" where
  "addKeys [] remaining = remaining"
| "addKeys (k # ks) remaining = addKeys ks (fmupd k k remaining)"

text \<open>\<^verbatim>\<open>for k, _ := range twoHopNeighbors[maxTwoHopsID] { delete(remainingTwoHops, k) }\<close>\<close>

fun deleteKeys :: "NodeID list \<Rightarrow> IDSet \<Rightarrow> IDSet" where
  "deleteKeys [] remaining = remaining"
| "deleteKeys (k # ks) remaining = deleteKeys ks (fmdrop k remaining)"

text \<open>The first loop of \<^verbatim>\<open>calculateMPRs\<close>, over the entries of the two-hop table.\<close>

fun gatherCandidates ::
  "OneHopTable \<Rightarrow> (NodeID \<times> IDSet) list \<Rightarrow> NodeID list \<times> IDSet \<Rightarrow> NodeID list \<times> IDSet" where
  "gatherCandidates oneHop [] acc = acc"
| "gatherCandidates oneHop ((node, v) # rest) (nodes, remaining) =
     (if state (lookupOneHop oneHop node) = Unidirectional
      then gatherCandidates oneHop rest (nodes, remaining)
      else gatherCandidates oneHop rest (nodes @ [node], addKeys (keysOf v) remaining))"

text \<open>
  The selection loop. \<^verbatim>\<open>nodes[0]\<close> on an empty slice is a run-time panic; reading a
  missing key of the two-hop table gives a nil map, over which the inner loop does nothing.
\<close>

fun selectMPRs :: "TwoHopTable \<Rightarrow> NodeID list \<Rightarrow> IDSet \<Rightarrow> IDSet \<Rightarrow> error + IDSet" where
  "selectMPRs twoHop [] remaining mprs =
     (if remaining = fmempty then Inr mprs else Inl IndexOutOfRange)"
| "selectMPRs twoHop (maxTwoHopsID # nodes) remaining mprs =
     (if remaining = fmempty then Inr mprs
      else selectMPRs twoHop nodes
             (case fmlookup twoHop maxTwoHopsID of
                None \<Rightarrow> remaining
              | Some v \<Rightarrow> deleteKeys (keysOf v) remaining)
             (fmupd maxTwoHopsID maxTwoHopsID mprs))"

text \<open>The last loop: the states of the one-hop entries follow the selected set.\<close>

fun assignStates :: "IDSet \<Rightarrow> (NodeID \<times> OneHopNeighborEntry) list \<Rightarrow> OneHopTable \<Rightarrow> OneHopTable" where
  "assignStates mprs [] oneHop = oneHop"
| "assignStates mprs ((i, neigh) # rest) oneHop =
     (if fmlookup mprs i \<noteq> None
      then assignStates mprs rest (fmupd i (neigh\<lparr>state := MPR\<rparr>) oneHop)
      else if state neigh = MPR
      then assignStates mprs rest (fmupd i (neigh\<lparr>state := Bidirectional\<rparr>) oneHop)
      else assignStates mprs rest oneHop)"

definition calculateMPRs :: "OneHopTable \<Rightarrow> TwoHopTable \<Rightarrow> error + OneHopTable" where
  "calculateMPRs oneHop twoHop =
     (case gatherCandidates oneHop (entriesOf twoHop) ([], fmempty) of
        (nodes, remainingTwoHops) \<Rightarrow>
          (case selectMPRs twoHop (sort nodes) remainingTwoHops fmempty of
             Inl e \<Rightarrow> Inl e
           | Inr mprs \<Rightarrow> Inr (assignStates mprs (entriesOf oneHop) oneHop)))"

subsection \<open>The HELLO handler\<close>

text \<open>The scan of \<^verbatim>\<open>msg.mpr\<close> for the own id.\<close>

fun isMS :: "NodeID \<Rightarrow> NodeID list \<Rightarrow> bool" where
  "isMS i [] = False"
| "isMS i (nodeID # rest) = (if nodeID = i then True else isMS i rest)"

definition updateMsSet :: "HelloMessage \<Rightarrow> NodeID \<Rightarrow> IDSet \<Rightarrow> IDSet" where
  "updateMsSet m i s =
     (let ok = (fmlookup s (HelloMessage.src m) \<noteq> None);
          sel = isMS i (mpr m);
          s1 = (if ok \<and> \<not> sel then fmdrop (HelloMessage.src m) s else s)
      in if \<not> ok \<and> sel then fmupd (HelloMessage.src m) (HelloMessage.src m) s1 else s1)"

definition handleHello :: "Node \<Rightarrow> HelloMessage \<Rightarrow> error + Node" where
  "handleHello n m =
     (let oneHop1 = updateOneHopNeighbors m (oneHopNeighbors n)
                      (currentTime n + neighborHoldTime n) (id' n);
          twoHop1 = updateTwoHopNeighbors m (twoHopNeighbors n) (id' n)
      in case calculateMPRs oneHop1 twoHop1 of
           Inl e \<Rightarrow> Inl e
         | Inr oneHop2 \<Rightarrow>
             Inr (n\<lparr>oneHopNeighbors := oneHop2, twoHopNeighbors := twoHop1,
                    msSet := updateMsSet m (id' n) (msSet n)\<rparr>))"

section \<open>TC reception\<close>

text \<open>
  The loop of \<^verbatim>\<open>updateTopologyTable\<close> over \<^verbatim>\<open>msg.ms\<close>. Every inner map is made by
  this loop, one for each destination, so no two destinations share one and the table
  is a map of maps by value.
\<close>

fun updateTopologyEntries ::
  "TCMessage \<Rightarrow> goint \<Rightarrow> NodeID list \<Rightarrow> TopologyTable \<Rightarrow> TopologyTable" where
  "updateTopologyEntries m hold [] tbl = tbl"
| "updateTopologyEntries m hold (d # rest) tbl =
     (case fmlookup tbl d of
        None \<Rightarrow>
          updateTopologyEntries m hold rest
            (fmupd d
               (fmupd (TCMessage.src m)
                  \<lparr>TopologyEntry.dst = d, dstMPR = TCMessage.src m, msSeqNum = seq m,
                   TopologyEntry.holdUntil = hold\<rparr> fmempty) tbl)
      | Some entries \<Rightarrow>
          (case fmlookup entries (TCMessage.src m) of
             None \<Rightarrow>
               updateTopologyEntries m hold rest
                 (fmupd d
                    (fmupd (TCMessage.src m)
                       \<lparr>TopologyEntry.dst = d, dstMPR = TCMessage.src m, msSeqNum = seq m,
                        TopologyEntry.holdUntil = hold\<rparr> entries) tbl)
           | Some entry \<Rightarrow>
               (if msSeqNum entry <s seq m
                then updateTopologyEntries m hold rest
                       (fmupd d
                          (fmupd (TCMessage.src m)
                             (entry\<lparr>TopologyEntry.holdUntil := hold\<rparr>) entries) tbl)
                else updateTopologyEntries m hold rest tbl)))"

definition updateTopologyTable :: "TCMessage \<Rightarrow> TopologyTable \<Rightarrow> goint \<Rightarrow> TopologyTable" where
  "updateTopologyTable m tbl hold = updateTopologyEntries m hold (ms m) tbl"

text \<open>A handler returns the node and the messages it put on the transmitter.\<close>

definition handleTC :: "Node \<Rightarrow> TCMessage \<Rightarrow> Node \<times> Message list" where
  "handleTC n m =
     (if TCMessage.src m = id' n then (n, [])
      else (n\<lparr>topologyTable :=
                updateTopologyTable m (topologyTable n) (currentTime n + topologyHoldTime n)\<rparr>,
            [TC (m\<lparr>TCMessage.fromnbr := id' n\<rparr>)]))"

definition handleData :: "Node \<Rightarrow> DataMessage \<Rightarrow> Node \<times> Message list" where
  "handleData n m = (n, [])"

text \<open>The type switch of \<^verbatim>\<open>handler\<close>; its default case panics.\<close>

fun handler :: "Node \<Rightarrow> Message \<Rightarrow> error + Node \<times> Message list" where
  "handler n (Hello m) = (case handleHello n m of Inl e \<Rightarrow> Inl e | Inr n' \<Rightarrow> Inr (n', []))"
| "handler n (Data m) = Inr (handleData n m)"
| "handler n (TC m) = Inr (handleTC n m)"
| "handler n OtherValue = Inl InvalidMessageType"

section \<open>Periodic emissions\<close>

text \<open>
  The switch of \<^verbatim>\<open>sendHello\<close> on the state of each one-hop entry. Its default case
  (a state outside the three constants) has no value in \<open>NeighborState\<close>.
\<close>

fun gatherNeighbors ::
  "OneHopNeighborEntry list \<Rightarrow> NodeID list \<times> NodeID list \<times> NodeID list
     \<Rightarrow> NodeID list \<times> NodeID list \<times> NodeID list" where
  "gatherNeighbors [] acc = acc"
| "gatherNeighbors (e # rest) (biNeighbors, uniNeighbors, mprNeighbors) =
     (case state e of
        Unidirectional \<Rightarrow>
          gatherNeighbors rest (biNeighbors, uniNeighbors @ [neighborID e], mprNeighbors)
      | Bidirectional \<Rightarrow>
          gatherNeighbors rest (biNeighbors @ [neighborID e], uniNeighbors, mprNeighbors)
      | MPR \<Rightarrow>
          gatherNeighbors rest (biNeighbors, uniNeighbors, mprNeighbors @ [neighborID e]))"

definition sendHello :: "Node \<Rightarrow> Node \<times> Message list" where
  "sendHello n =
     (case gatherNeighbors (map snd (entriesOf (oneHopNeighbors n))) ([], [], []) of
        (biNeighbors, uniNeighbors, mprNeighbors) \<Rightarrow>
          (n, [Hello \<lparr>HelloMessage.src = id' n, unidir = uniNeighbors,
                      bidir = biNeighbors, mpr = mprNeighbors\<rparr>]))"

definition sendTC :: "Node \<Rightarrow> Node \<times> Message list" where
  "sendTC n =
     (n\<lparr>tcSequenceNum := tcSequenceNum n + 1\<rparr>,
      [TC \<lparr>TCMessage.src = id' n, TCMessage.fromnbr = id' n, seq = tcSequenceNum n,
           ms = map snd (entriesOf (msSet n))\<rparr>])"

section \<open>The tick loop\<close>

text \<open>Go's \<^verbatim>\<open>%\<close> on \<^verbatim>\<open>int\<close>: the remainder of the division that truncates towards zero.\<close>

definition goRem :: "goint \<Rightarrow> goint \<Rightarrow> goint" where
  "goRem a b = word_of_int (sint a smod sint b)"

text \<open>Removal of the expired one-hop entries, each with the two-hop set of the same key.\<close>

fun evictNeighbors ::
  "goint \<Rightarrow> (NodeID \<times> OneHopNeighborEntry) list \<Rightarrow> OneHopTable \<times> TwoHopTable
     \<Rightarrow> OneHopTable \<times> TwoHopTable" where
  "evictNeighbors now [] tables = tables"
| "evictNeighbors now ((k, entry) # rest) (oneHop, twoHop) =
     (if OneHopNeighborEntry.holdUntil entry \<le>s now
      then evictNeighbors now rest (fmdrop k oneHop, fmdrop k twoHop)
      else evictNeighbors now rest (oneHop, twoHop))"

text \<open>Removal of the expired topology entries; an inner map that becomes empty stays.\<close>

fun evictEntries ::
  "goint \<Rightarrow> (NodeID \<times> TopologyEntry) list \<Rightarrow> (NodeID, TopologyEntry) fmap
     \<Rightarrow> (NodeID, TopologyEntry) fmap" where
  "evictEntries now [] d = d"
| "evictEntries now ((k, entry) # rest) d =
     (if TopologyEntry.holdUntil entry \<le>s now
      then evictEntries now rest (fmdrop k d)
      else evictEntries now rest d)"

fun evictTopology ::
  "goint \<Rightarrow> (NodeID \<times> (NodeID, TopologyEntry) fmap) list \<Rightarrow> TopologyTable \<Rightarrow> TopologyTable" where
  "evictTopology now [] tbl = tbl"
| "evictTopology now ((k, d) # rest) tbl =
     evictTopology now rest (fmupd k (evictEntries now (entriesOf d) d) tbl)"

text \<open>
  The \<^verbatim>\<open>select\<close> of the loop: the message polled from the receiver, if one is there, goes
  to the handler; with none the default case does nothing. The input log is not modelled.
\<close>

definition poll :: "Node \<Rightarrow> Message option \<Rightarrow> error + Node \<times> Message list" where
  "poll n incoming = (case incoming of None \<Rightarrow> Inr (n, []) | Some m \<Rightarrow> handler n m)"

text \<open>
  One iteration of the loop of \<^verbatim>\<open>run\<close>: the poll, the two periodic emissions, the two
  sweeps, the clock. The data message is not sent (the branch for it is empty).
\<close>

definition tick :: "Node \<Rightarrow> Message option \<Rightarrow> error + Node \<times> Message list" where
  "tick n incoming =
     (case poll n incoming of
        Inl e \<Rightarrow> Inl e
      | Inr (n1, out1) \<Rightarrow>
          (case (if goRem (currentTime n1) 5 = 0 then sendHello n1 else (n1, [])) of
             (n2, out2) \<Rightarrow>
               (case (if goRem (currentTime n2) 10 = 0 then sendTC n2 else (n2, [])) of
                  (n3, out3) \<Rightarrow>
                    (case evictNeighbors (currentTime n3) (entriesOf (oneHopNeighbors n3))
                            (oneHopNeighbors n3, twoHopNeighbors n3) of
                       (oneHop, twoHop) \<Rightarrow>
                         Inr (n3\<lparr>oneHopNeighbors := oneHop, twoHopNeighbors := twoHop,
                                 topologyTable :=
                                   evictTopology (currentTime n3)
                                     (entriesOf (topologyTable n3)) (topologyTable n3),
                                 currentTime := currentTime n3 + 1\<rparr>,
                              out1 @ out2 @ out3)))))"

text \<open>
  The loop itself, over the ticks that pass before the context is cancelled: for each
  tick the message the receiver holds, if any. The result is everything sent, in order,
  and the final node, or the panic that ended the run.
\<close>

fun ticks :: "Node \<Rightarrow> Message option list \<Rightarrow> Message list \<times> (error + Node)" where
  "ticks n [] = ([], Inr n)"
| "ticks n (incoming # rest) =
     (case tick n incoming of
        Inl e \<Rightarrow> ([], Inl e)
      | Inr (n', out) \<Rightarrow> (case ticks n' rest of (outs, r) \<Rightarrow> (out @ outs, r)))"

definition run :: "Node \<Rightarrow> Message option list \<Rightarrow> Message list \<times> (error + Node)" where
  "run n incoming = ticks (n\<lparr>currentTime := 0\<rparr>) incoming"

definition NewNode :: "NodeID \<Rightarrow> NodeMsg \<Rightarrow> Node" where
  "NewNode i nm =
     \<lparr>id' = i, nodeMsg = nm, topologyTable = fmempty, tcSequenceNum = 0,
      topologyHoldTime = 0, routingTable = [], oneHopNeighbors = fmempty,
      twoHopNeighbors = fmempty, msSet = fmempty, currentTime = 0, neighborHoldTime = 15\<rparr>"

section \<open>Notions used in the statements\<close>

text \<open>
  The two-hop NodeIDs that a one-hop neighbour announced, the one-hop keys the selection
  treats as candidates (a key missing from the one-hop table reads as the zero entry,
  whose state is \<open>Bidirectional\<close>), and what the last loop of \<^verbatim>\<open>calculateMPRs\<close> does to
  one entry.
\<close>

definition announced :: "TwoHopTable \<Rightarrow> NodeID \<Rightarrow> NodeID set" where
  "announced twoHop c = (case fmlookup twoHop c of None \<Rightarrow> {} | Some v \<Rightarrow> fmdom' v)"

definition nonUni :: "OneHopTable \<Rightarrow> NodeID \<Rightarrow> bool" where
  "nonUni oneHop k = (state (lookupOneHop oneHop k) \<noteq> Unidirectional)"

definition reassign :: "IDSet \<Rightarrow> NodeID \<Rightarrow> OneHopNeighborEntry \<Rightarrow> OneHopNeighborEntry" where
  "reassign M k e =
     (if fmlookup M k \<noteq> None then e\<lparr>state := MPR\<rparr>
      else if state e = MPR then e\<lparr>state := Bidirectional\<rparr> else e)"

definition candidates :: "OneHopTable \<Rightarrow> TwoHopTable \<Rightarrow> NodeID list" where
  "candidates oneHop twoHop = filter (nonUni oneHop) (keysOf twoHop)"

text \<open>\<^verbatim>\<open>topologyTable[d][s]\<close>, when both keys are there.\<close>

definition topologyEntry :: "TopologyTable \<Rightarrow> NodeID \<Rightarrow> NodeID \<Rightarrow> TopologyEntry option" where
  "topologyEntry tbl d s = (case fmlookup tbl d of None \<Rightarrow> None | Some entries \<Rightarrow> fmlookup entries s)"

text \<open>The inclusion of the keys of the two-hop table in those of the one-hop table.\<close>

definition twoHopKeysIncluded :: "Node \<Rightarrow> bool" where
  "twoHopKeysIncluded n = (fmdom' (twoHopNeighbors n) \<subseteq> fmdom' (oneHopNeighbors n))"

text \<open>
  The set that the first two loops of \<^verbatim>\<open>calculateMPRs\<close> select, and the sequence numbers
  of the TC messages of a given source in a list of sent messages. The handler forwards
  only TC messages of other sources, so in what a node sends the TC messages whose
  source is the node are those that \<^verbatim>\<open>sendTC\<close> built.
\<close>

definition selected :: "OneHopTable \<Rightarrow> TwoHopTable \<Rightarrow> error + IDSet" where
  "selected oneHop twoHop =
     (case gatherCandidates oneHop (entriesOf twoHop) ([], fmempty) of
        (nodes, remainingTwoHops) \<Rightarrow> selectMPRs twoHop (sort nodes) remainingTwoHops fmempty)"


section \<open>Properties of the map loops\<close>

lemma set_keysOf: "set (keysOf m) = fmdom' m"
  by (simp add: keysOf_def fmdom'_alt_def)

lemma distinct_keysOf: "distinct (keysOf m)"
  by (simp add: keysOf_def sorted_list_of_fset.rep_eq)

lemma entriesOf_eq: "entriesOf m = map (\<lambda>k. (k, the (fmlookup m k))) (keysOf m)"
proof -
  have "\<And>ks. set ks \<subseteq> fmdom' m \<Longrightarrow>
      List.map_filter (\<lambda>k. map_option (Pair k) (fmlookup m k)) ks = map (\<lambda>k. (k, the (fmlookup m k))) ks"
  proof -
    fix ks show "set ks \<subseteq> fmdom' m \<Longrightarrow>
      List.map_filter (\<lambda>k. map_option (Pair k) (fmlookup m k)) ks = map (\<lambda>k. (k, the (fmlookup m k))) ks"
      by (induction ks) (auto simp: List.map_filter_simps fmdom'_alt_def fmlookup_dom_iff)
  qed
  then show ?thesis by (simp add: entriesOf_def set_keysOf)
qed

lemma map_fst_entriesOf: "map fst (entriesOf m) = keysOf m"
  by (simp add: entriesOf_eq comp_def)

lemma distinct_entriesOf: "distinct (map fst (entriesOf m))"
  by (simp add: map_fst_entriesOf distinct_keysOf)

lemma set_entriesOf: "(k, v) \<in> set (entriesOf m) \<longleftrightarrow> fmlookup m k = Some v"
  by (auto simp: entriesOf_eq set_keysOf fmdom'_alt_def fmlookup_dom_iff)

lemma lookup_collectTwoHops:
  "fmlookup (collectTwoHops i xs t) k = (if k \<in> set xs \<and> k \<noteq> i then Some k else fmlookup t k)"
  by (induction xs arbitrary: t) auto

lemma lookup_addKeys:
  "fmlookup (addKeys ks r) k = (if k \<in> set ks then Some k else fmlookup r k)"
  by (induction ks arbitrary: r) auto

lemma lookup_deleteKeys:
  "fmlookup (deleteKeys ks r) k = (if k \<in> set ks then None else fmlookup r k)"
  by (induction ks arbitrary: r) auto

lemma dom_step:
  "fmdom' (case fmlookup twoHop c of None \<Rightarrow> remaining | Some v \<Rightarrow> deleteKeys (keysOf v) remaining)
     = fmdom' remaining - announced twoHop c"
  by (auto simp: announced_def fmdom'_alt_def fmlookup_dom_iff lookup_deleteKeys set_keysOf split: option.splits if_splits)

lemma fmempty_iff: "m = fmempty \<longleftrightarrow> fmdom' m = {}"
  by (metis fmdom'_empty fmrestrict_set_dom fmrestrict_set_null)

lemma selectMPRs_total:
  "fmdom' remaining \<subseteq> (\<Union>c \<in> set nodes. announced twoHop c) \<Longrightarrow>
   \<exists>M. selectMPRs twoHop nodes remaining mprs = Inr M"
proof (induction nodes arbitrary: remaining mprs)
  case Nil
  then show ?case by (simp add: fmempty_iff)
next
  case (Cons c nodes)
  show ?case
  proof (cases "remaining = fmempty")
    case True
    then show ?thesis by simp
  next
    case False
    have "fmdom' remaining - announced twoHop c \<subseteq> (\<Union>c \<in> set nodes. announced twoHop c)"
      using Cons.prems by auto
    then show ?thesis using False Cons.IH by (simp add: dom_step)
  qed
qed

lemma selectMPRs_spec:
  "selectMPRs twoHop nodes remaining mprs = Inr M \<Longrightarrow>
   fmdom' mprs \<subseteq> fmdom' M \<and> fmdom' M \<subseteq> fmdom' mprs \<union> set nodes \<and>
   (\<forall>x \<in> fmdom' remaining. \<exists>c \<in> fmdom' M. x \<in> announced twoHop c)"
proof (induction nodes arbitrary: remaining mprs)
  case Nil
  then show ?case by (auto split: if_splits)
next
  case (Cons c nodes)
  show ?case
  proof (cases "remaining = fmempty")
    case True
    then show ?thesis using Cons.prems by auto
  next
    case False
    let ?r = "case fmlookup twoHop c of None \<Rightarrow> remaining | Some v \<Rightarrow> deleteKeys (keysOf v) remaining"
    from False Cons.prems have "selectMPRs twoHop nodes ?r (fmupd c c mprs) = Inr M" by simp
    from Cons.IH [OF this] have
      a: "fmdom' (fmupd c c mprs) \<subseteq> fmdom' M" and
      b: "fmdom' M \<subseteq> fmdom' (fmupd c c mprs) \<union> set nodes" and
      d: "\<forall>x \<in> fmdom' ?r. \<exists>c \<in> fmdom' M. x \<in> announced twoHop c" by auto
    from a have c_in: "c \<in> fmdom' M" by auto
    have "\<forall>x \<in> fmdom' remaining. \<exists>c \<in> fmdom' M. x \<in> announced twoHop c"
    proof
      fix x assume x: "x \<in> fmdom' remaining"
      show "\<exists>c \<in> fmdom' M. x \<in> announced twoHop c"
      proof (cases "x \<in> announced twoHop c")
        case True
        with c_in show ?thesis by blast
      next
        case False
        with x have "x \<in> fmdom' ?r" by (simp add: dom_step)
        with d show ?thesis by blast
      qed
    qed
    with a b show ?thesis by auto
  qed
qed

lemma gatherCandidates_spec:
  "gatherCandidates oneHop es (nodes, remaining) = (nodes', remaining') \<Longrightarrow>
   nodes' = nodes @ filter (nonUni oneHop) (map fst es) \<and>
   fmdom' remaining' = fmdom' remaining \<union> (\<Union>(k, v) \<in> set es. if nonUni oneHop k then fmdom' v else {})"
proof (induction es arbitrary: nodes remaining)
  case Nil
  then show ?case by simp
next
  case (Cons a es)
  obtain k v where a: "a = (k, v)" by (cases a)
  show ?case
  proof (cases "nonUni oneHop k")
    case True
    with Cons.prems a have "gatherCandidates oneHop es (nodes @ [k], addKeys (keysOf v) remaining) = (nodes', remaining')"
      by (simp add: nonUni_def)
    from Cons.IH [OF this] True a show ?thesis
      by (auto simp: fmdom'_alt_def fmlookup_dom_iff lookup_addKeys set_keysOf split: if_splits)
  next
    case False
    with Cons.prems a have "gatherCandidates oneHop es (nodes, remaining) = (nodes', remaining')"
      by (simp add: nonUni_def)
    from Cons.IH [OF this] False a show ?thesis by auto
  qed
qed

lemma lookup_assignStates_gen:
  "distinct (map fst es) \<Longrightarrow>
   fmlookup (assignStates M es oneHop) k =
     (case map_of es k of None \<Rightarrow> fmlookup oneHop k
      | Some e \<Rightarrow> if fmlookup M k \<noteq> None \<or> state e = MPR then Some (reassign M k e) else fmlookup oneHop k)"
proof (induction es arbitrary: oneHop)
  case Nil
  then show ?case by simp
next
  case (Cons a es)
  obtain i neigh where a: "a = (i, neigh)" by (cases a)
  from Cons.prems a have d: "distinct (map fst es)" and ni: "map_of es i = None"
    by (auto simp: map_of_eq_None_iff)
  show ?case
    using Cons.IH [OF d] ni a
    by (auto simp: reassign_def split: option.splits)
qed

lemma map_of_entriesOf: "map_of (entriesOf m) k = fmlookup m k"
proof (cases "fmlookup m k")
  case None
  have "set (map fst (entriesOf m)) = fmdom' m"
    by (simp only: map_fst_entriesOf set_keysOf)
  with None have "k \<notin> fst ` set (entriesOf m)"
    by (simp add: fmdom'_alt_def fmlookup_dom_iff)
  with None show ?thesis by (simp add: map_of_eq_None_iff)
next
  case (Some v)
  then have "(k, v) \<in> set (entriesOf m)" by (simp add: set_entriesOf)
  with distinct_entriesOf [of m] Some show ?thesis by simp
qed

lemma lookup_assignStates:
  "fmlookup (assignStates M (entriesOf oneHop) oneHop) k = map_option (reassign M k) (fmlookup oneHop k)"
  by (auto simp: lookup_assignStates_gen distinct_entriesOf map_of_entriesOf reassign_def split: option.splits)

lemma gatherCandidates_entriesOf:
  "\<exists>remaining. gatherCandidates oneHop (entriesOf twoHop) ([], fmempty) = (candidates oneHop twoHop, remaining) \<and>
     fmdom' remaining = (\<Union>c \<in> set (candidates oneHop twoHop). announced twoHop c)"
proof -
  obtain nodes remaining where g: "gatherCandidates oneHop (entriesOf twoHop) ([], fmempty) = (nodes, remaining)"
    by (cases "gatherCandidates oneHop (entriesOf twoHop) ([], fmempty)")
  from gatherCandidates_spec [OF g] have
    n: "nodes = candidates oneHop twoHop" and
    r: "fmdom' remaining = (\<Union>(k, v) \<in> set (entriesOf twoHop). if nonUni oneHop k then fmdom' v else {})"
    by (simp_all add: candidates_def map_fst_entriesOf)
  have "(\<Union>(k, v) \<in> set (entriesOf twoHop). if nonUni oneHop k then fmdom' v else {})
        = (\<Union>c \<in> set (candidates oneHop twoHop). announced twoHop c)" (is "?L = ?R")
  proof (rule set_eqI)
    fix x
    have "x \<in> ?L \<longleftrightarrow> (\<exists>k v. fmlookup twoHop k = Some v \<and> nonUni oneHop k \<and> x \<in> fmdom' v)"
      by (force simp: set_entriesOf split: if_splits)
    moreover have "x \<in> ?R \<longleftrightarrow> (\<exists>k v. fmlookup twoHop k = Some v \<and> nonUni oneHop k \<and> x \<in> fmdom' v)"
      by (force simp: candidates_def announced_def set_keysOf fmdom'_alt_def fmlookup_dom_iff
             split: option.splits)
    ultimately show "x \<in> ?L \<longleftrightarrow> x \<in> ?R" by simp
  qed
  with g n r show ?thesis by simp
qed

lemma calculateMPRs_total:
  "\<exists>M. calculateMPRs oneHop twoHop = Inr (assignStates M (entriesOf oneHop) oneHop) \<and>
       fmdom' M \<subseteq> set (candidates oneHop twoHop) \<and>
       (\<forall>c \<in> set (candidates oneHop twoHop). \<forall>x \<in> announced twoHop c.
           \<exists>m \<in> fmdom' M. x \<in> announced twoHop m)"
proof -
  obtain remaining where
    g: "gatherCandidates oneHop (entriesOf twoHop) ([], fmempty) = (candidates oneHop twoHop, remaining)" and
    r: "fmdom' remaining = (\<Union>c \<in> set (candidates oneHop twoHop). announced twoHop c)"
    using gatherCandidates_entriesOf by blast
  have "fmdom' remaining \<subseteq> (\<Union>c \<in> set (sort (candidates oneHop twoHop)). announced twoHop c)"
    using r by simp
  from selectMPRs_total [OF this] obtain M where
    s: "selectMPRs twoHop (sort (candidates oneHop twoHop)) remaining fmempty = Inr M" by blast
  from selectMPRs_spec [OF s] r have
    "fmdom' M \<subseteq> set (candidates oneHop twoHop)"
    "\<forall>c \<in> set (candidates oneHop twoHop). \<forall>x \<in> announced twoHop c. \<exists>m \<in> fmdom' M. x \<in> announced twoHop m"
    by auto
  moreover have "calculateMPRs oneHop twoHop = Inr (assignStates M (entriesOf oneHop) oneHop)"
    by (simp add: calculateMPRs_def g s)
  ultimately show ?thesis by blast
qed

lemma calculateMPRs_Inr: "\<exists>oneHop'. calculateMPRs oneHop twoHop = Inr oneHop'"
  using calculateMPRs_total by blast

lemma handleHello_Inr: "\<exists>n'. handleHello n m = Inr n'"
proof -
  obtain oh where "calculateMPRs (updateOneHopNeighbors m (oneHopNeighbors n)
                      (currentTime n + neighborHoldTime n) (id' n)) (updateTwoHopNeighbors m (twoHopNeighbors n) (id' n)) = Inr oh"
    using calculateMPRs_Inr by blast
  then show ?thesis by (simp add: handleHello_def)
qed

lemma handleHello_twoHop:
  "handleHello n m = Inr n' \<Longrightarrow>
   twoHopNeighbors n' = updateTwoHopNeighbors m (twoHopNeighbors n) (id' n)"
  by (auto simp: handleHello_def Let_def split: sum.splits)

section \<open>Two-hop freshness\<close>

text \<open>
  Claim C6. The HELLO handler always returns, and afterwards the two-hop set stored
  under the source of the message is exactly the set of the ids in \<open>unidir\<close> and \<open>bidir\<close>
  without the node's own id, each id mapped to itself, whatever was stored under that
  key before. The \<open>mpr\<close> list has no part in it: the same message with any other
  \<open>mpr\<close> list leaves the same set.
\<close>

theorem C6_two_hop_freshness:
  "\<exists>n' t. handleHello n m = Inr n' \<and>
     fmlookup (twoHopNeighbors n') (HelloMessage.src m) = Some t \<and>
     fmdom' t = (set (unidir m) \<union> set (bidir m)) - {id' n} \<and>
     (\<forall>k. fmlookup t k = (if k \<in> (set (unidir m) \<union> set (bidir m)) - {id' n} then Some k else None)) \<and>
     (\<forall>l. \<exists>n''. handleHello n (m\<lparr>mpr := l\<rparr>) = Inr n'' \<and>
         fmlookup (twoHopNeighbors n'') (HelloMessage.src m) = Some t)"
proof -
  obtain n' where h: "handleHello n m = Inr n'" using handleHello_Inr by blast
  let ?t = "collectTwoHops (id' n) (unidir m @ bidir m) fmempty"
  have t: "fmlookup (twoHopNeighbors n') (HelloMessage.src m) = Some ?t"
    using handleHello_twoHop [OF h] by (simp add: updateTwoHopNeighbors_def)
  have l: "\<forall>k. fmlookup ?t k = (if k \<in> (set (unidir m) \<union> set (bidir m)) - {id' n} then Some k else None)"
    by (auto simp: lookup_collectTwoHops)
  have d: "fmdom' ?t = (set (unidir m) \<union> set (bidir m)) - {id' n}"
    by (auto simp: fmdom'_alt_def fmlookup_dom_iff lookup_collectTwoHops split: if_splits)
  have "\<forall>l. \<exists>n''. handleHello n (m\<lparr>mpr := l\<rparr>) = Inr n'' \<and>
         fmlookup (twoHopNeighbors n'') (HelloMessage.src m) = Some ?t"
  proof
    fix l
    obtain n'' where h': "handleHello n (m\<lparr>mpr := l\<rparr>) = Inr n''" using handleHello_Inr by blast
    from handleHello_twoHop [OF h'] have
      "fmlookup (twoHopNeighbors n'') (HelloMessage.src m) = Some ?t"
      by (simp add: updateTwoHopNeighbors_def)
    with h' show "\<exists>n''. handleHello n (m\<lparr>mpr := l\<rparr>) = Inr n'' \<and>
         fmlookup (twoHopNeighbors n'') (HelloMessage.src m) = Some ?t" by blast
  qed
  with h t l d show ?thesis by blast
qed

text \<open>An instance: a fresh node 0 hears node 1 announce 2, 0 and 3, and 4 as its MPR.\<close>

theorem C6_two_hop_freshness_witness:
  "\<exists>n' t. handleHello (NewNode 0 \<lparr>msg = ''hi'', delay = 30, NodeMsg.dst = 2\<rparr>)
              \<lparr>HelloMessage.src = 1, unidir = [2], bidir = [0, 3], mpr = [4]\<rparr> = Inr n' \<and>
     fmlookup (twoHopNeighbors n') 1 = Some t \<and> fmdom' t = {2, 3} \<and>
     fmlookup t 4 = None \<and> fmlookup t 0 = None \<and> fmlookup t 3 = Some 3"
proof -
  have e: "(set [2] \<union> set [0, 3 :: NodeID]) - {0} = {2, 3}" by auto
  show ?thesis
    using C6_two_hop_freshness [of "NewNode 0 \<lparr>msg = ''hi'', delay = 30, NodeMsg.dst = 2\<rparr>"
        "\<lparr>HelloMessage.src = 1, unidir = [2], bidir = [0, 3], mpr = [4]\<rparr>"]
    apply (simp only: HelloMessage.simps e)
    apply (simp add: NewNode_def)
    apply (elim exE conjE)
    apply (intro exI conjI)
         apply assumption+
    apply auto
    done
qed

section \<open>The TC handler\<close>

text \<open>
  Claim C7. A TC message whose source is the node itself leaves the node as it was and
  nothing is sent. Any other TC message updates the topology table and is sent on, once,
  with \<open>fromnbr\<close> set to the node's id; what is sent depends neither on the MS set of
  the node nor on the previous hop of the message.
\<close>

theorem C7_handleTC_drop_or_forward:
  "(TCMessage.src m = id' n \<longrightarrow> handleTC n m = (n, [])) \<and>
   (TCMessage.src m \<noteq> id' n \<longrightarrow>
      handleTC n m =
        (n\<lparr>topologyTable :=
             updateTopologyTable m (topologyTable n) (currentTime n + topologyHoldTime n)\<rparr>,
         [TC (m\<lparr>TCMessage.fromnbr := id' n\<rparr>)]) \<and>
      (\<forall>s prev. snd (handleTC (n\<lparr>msSet := s\<rparr>) (m\<lparr>TCMessage.fromnbr := prev\<rparr>)) =
                 [TC (m\<lparr>TCMessage.fromnbr := id' n\<rparr>)]))"
  by (simp add: handleTC_def)

text \<open>An instance: node 1 drops its own TC message and forwards the one of node 5.\<close>

theorem C7_handleTC_drop_or_forward_witness:
  "handleTC (NewNode 1 \<lparr>msg = ''hi'', delay = 30, NodeMsg.dst = 2\<rparr>)
      \<lparr>TCMessage.src = 1, TCMessage.fromnbr = 4, seq = 7, ms = [9]\<rparr>
     = (NewNode 1 \<lparr>msg = ''hi'', delay = 30, NodeMsg.dst = 2\<rparr>, []) \<and>
   snd (handleTC (NewNode 1 \<lparr>msg = ''hi'', delay = 30, NodeMsg.dst = 2\<rparr>)
      \<lparr>TCMessage.src = 5, TCMessage.fromnbr = 4, seq = 7, ms = [9]\<rparr>)
     = [TC \<lparr>TCMessage.src = 5, TCMessage.fromnbr = 1, seq = 7, ms = [9]\<rparr>]"
  using C7_handleTC_drop_or_forward [of "\<lparr>TCMessage.src = 1, TCMessage.fromnbr = 4, seq = 7, ms = [9]\<rparr>"
      "NewNode 1 \<lparr>msg = ''hi'', delay = 30, NodeMsg.dst = 2\<rparr>"]
    C7_handleTC_drop_or_forward [of "\<lparr>TCMessage.src = 5, TCMessage.fromnbr = 4, seq = 7, ms = [9]\<rparr>"
      "NewNode 1 \<lparr>msg = ''hi'', delay = 30, NodeMsg.dst = 2\<rparr>"]
  by (simp add: NewNode_def)

text \<open>
  Claim C10. For a TC message of another node the handler changes the topology table
  and nothing else in the node, and the message it forwards differs from the one
  received in \<open>fromnbr\<close> only.
\<close>

theorem C10_handleTC_frame:
  "TCMessage.src m \<noteq> id' n \<Longrightarrow> handleTC n m = (n', out) \<Longrightarrow>
   oneHopNeighbors n' = oneHopNeighbors n \<and> twoHopNeighbors n' = twoHopNeighbors n \<and>
   msSet n' = msSet n \<and> tcSequenceNum n' = tcSequenceNum n \<and>
   currentTime n' = currentTime n \<and> neighborHoldTime n' = neighborHoldTime n \<and>
   topologyHoldTime n' = topologyHoldTime n \<and> id' n' = id' n \<and> nodeMsg n' = nodeMsg n \<and>
   routingTable n' = routingTable n \<and>
   n' = n\<lparr>topologyTable := topologyTable n'\<rparr> \<and>
   (\<exists>m'. out = [TC m'] \<and> m' = m\<lparr>TCMessage.fromnbr := TCMessage.fromnbr m'\<rparr> \<and>
         TCMessage.src m' = TCMessage.src m \<and> seq m' = seq m \<and> ms m' = ms m)"
  by (auto simp: handleTC_def)

text \<open>An instance, on a node with a sequence number and a clock that are not zero.\<close>

theorem C10_handleTC_frame_witness:
  "\<exists>n' out. handleTC ((NewNode 1 \<lparr>msg = ''hi'', delay = 30, NodeMsg.dst = 2\<rparr>)\<lparr>tcSequenceNum := 3, currentTime := 21\<rparr>)
      \<lparr>TCMessage.src = 5, TCMessage.fromnbr = 4, seq = 7, ms = [9]\<rparr> = (n', out) \<and>
     tcSequenceNum n' = 3 \<and> currentTime n' = 21 \<and> oneHopNeighbors n' = fmempty \<and>
     neighborHoldTime n' = 15 \<and> topologyHoldTime n' = 0 \<and> topologyTable n' \<noteq> fmempty"
proof -
  let ?n = "(NewNode 1 \<lparr>msg = ''hi'', delay = 30, NodeMsg.dst = 2\<rparr>)\<lparr>tcSequenceNum := 3, currentTime := 21\<rparr>"
  let ?m = "\<lparr>TCMessage.src = 5, TCMessage.fromnbr = 4, seq = 7, ms = [9]\<rparr>"
  obtain n' out where h: "handleTC ?n ?m = (n', out)" by (cases "handleTC ?n ?m")
  have s: "TCMessage.src ?m \<noteq> id' ?n" by (simp add: NewNode_def)
  have t: "topologyTable n' \<noteq> fmempty"
    using h by (auto simp: handleTC_def NewNode_def updateTopologyTable_def)
  from C10_handleTC_frame [OF s h] t h show ?thesis by (simp add: NewNode_def)
qed

section \<open>The topology table\<close>

lemma sless_irrefl: "\<not> (x :: goint) <s x"
  by (simp add: word_sless_alt)

lemma sle_not_sless: "(x :: goint) \<le>s y \<longleftrightarrow> \<not> y <s x"
  by (auto simp: word_sless_alt word_sle_eq)

lemma topologyEntry_fmupd:
  "topologyEntry (fmupd d0 (fmupd s0 x entries) tbl) d s =
     (if d = d0 then (if s = s0 then Some x else fmlookup entries s) else topologyEntry tbl d s)"
  by (simp add: topologyEntry_def)

lemma topologyEntry_updateTopologyEntries:
  "topologyEntry (updateTopologyEntries m hold ds tbl) d s =
     (if s = TCMessage.src m \<and> d \<in> set ds then
        (case topologyEntry tbl d s of
           None \<Rightarrow> Some \<lparr>TopologyEntry.dst = d, dstMPR = TCMessage.src m, msSeqNum = seq m,
                          TopologyEntry.holdUntil = hold\<rparr>
         | Some e \<Rightarrow> if msSeqNum e <s seq m then Some (e\<lparr>TopologyEntry.holdUntil := hold\<rparr>) else Some e)
      else topologyEntry tbl d s)"
proof (induction ds arbitrary: tbl)
  case Nil
  then show ?case by simp
next
  case (Cons d0 ds)
  let ?new = "\<lparr>TopologyEntry.dst = d0, dstMPR = TCMessage.src m, msSeqNum = seq m,
               TopologyEntry.holdUntil = hold\<rparr>"
  show ?case
  proof (cases "fmlookup tbl d0")
    case None
    then have u: "updateTopologyEntries m hold (d0 # ds) tbl =
        updateTopologyEntries m hold ds (fmupd d0 (fmupd (TCMessage.src m) ?new fmempty) tbl)"
      by simp
    from None have t: "\<And>s. topologyEntry tbl d0 s = None" by (simp add: topologyEntry_def)
    show ?thesis
      unfolding u Cons.IH topologyEntry_fmupd using t by (auto simp: sless_irrefl)
  next
    case (Some entries)
    then have t: "\<And>s. topologyEntry tbl d0 s = fmlookup entries s" by (simp add: topologyEntry_def)
    show ?thesis
    proof (cases "fmlookup entries (TCMessage.src m)")
      case None
      with Some have u: "updateTopologyEntries m hold (d0 # ds) tbl =
          updateTopologyEntries m hold ds (fmupd d0 (fmupd (TCMessage.src m) ?new entries) tbl)"
        by simp
      show ?thesis
        unfolding u Cons.IH topologyEntry_fmupd using t None by (auto simp: sless_irrefl)
    next
      case (Some entry)
      show ?thesis
      proof (cases "msSeqNum entry <s seq m")
        case True
        with Some \<open>fmlookup tbl d0 = Some entries\<close> have u: "updateTopologyEntries m hold (d0 # ds) tbl =
            updateTopologyEntries m hold ds
              (fmupd d0 (fmupd (TCMessage.src m) (entry\<lparr>TopologyEntry.holdUntil := hold\<rparr>) entries) tbl)"
          by simp
        show ?thesis
          unfolding u Cons.IH topologyEntry_fmupd using t Some True by auto
      next
        case False
        with Some \<open>fmlookup tbl d0 = Some entries\<close> have u: "updateTopologyEntries m hold (d0 # ds) tbl =
            updateTopologyEntries m hold ds tbl"
          by simp
        show ?thesis
          unfolding u Cons.IH using t Some False by auto
      qed
    qed
  qed
qed

section \<open>What no operation changes\<close>

lemma handler_frame:
  "handler n i = Inr (n1, out) \<Longrightarrow>
   topologyHoldTime n1 = topologyHoldTime n \<and> neighborHoldTime n1 = neighborHoldTime n \<and>
   id' n1 = id' n \<and> nodeMsg n1 = nodeMsg n \<and> currentTime n1 = currentTime n \<and>
   tcSequenceNum n1 = tcSequenceNum n \<and> routingTable n1 = routingTable n"
  by (cases i) (auto simp: handleHello_def handleTC_def handleData_def Let_def split: sum.splits if_splits)

lemma poll_frame:
  "poll n incoming = Inr (n1, out) \<Longrightarrow>
   topologyHoldTime n1 = topologyHoldTime n \<and> neighborHoldTime n1 = neighborHoldTime n \<and>
   id' n1 = id' n \<and> nodeMsg n1 = nodeMsg n \<and> currentTime n1 = currentTime n \<and>
   tcSequenceNum n1 = tcSequenceNum n \<and> routingTable n1 = routingTable n"
  using handler_frame by (cases incoming) (auto simp: poll_def)

lemma tick_frame:
  "tick n incoming = Inr (n', out) \<Longrightarrow>
   topologyHoldTime n' = topologyHoldTime n \<and> neighborHoldTime n' = neighborHoldTime n \<and>
   id' n' = id' n \<and> nodeMsg n' = nodeMsg n \<and> currentTime n' = currentTime n + 1 \<and>
   routingTable n' = routingTable n"
proof -
  assume t: "tick n incoming = Inr (n', out)"
  obtain n1 out1 where h: "poll n incoming = Inr (n1, out1)"
    using t by (auto simp: tick_def split: sum.splits)
  show ?thesis
    using t poll_frame [OF h] unfolding tick_def h
    by (auto simp: sendHello_def sendTC_def split: prod.splits if_splits)
qed

lemma ticks_frame:
  "ticks n ins = (outs, Inr n') \<Longrightarrow>
   topologyHoldTime n' = topologyHoldTime n \<and> neighborHoldTime n' = neighborHoldTime n \<and>
   id' n' = id' n \<and> nodeMsg n' = nodeMsg n \<and> routingTable n' = routingTable n"
proof (induction ins arbitrary: n outs)
  case Nil
  then show ?case by simp
next
  case (Cons i ins)
  from Cons.prems obtain n1 out1 outs1 where
    t: "tick n i = Inr (n1, out1)" and r: "ticks n1 ins = (outs1, Inr n')"
    by (auto split: sum.splits prod.splits)
  from tick_frame [OF t] Cons.IH [OF r] show ?case by simp
qed

lemma run_frame:
  "run n ins = (outs, Inr n') \<Longrightarrow>
   topologyHoldTime n' = topologyHoldTime n \<and> neighborHoldTime n' = neighborHoldTime n \<and>
   id' n' = id' n"
  using ticks_frame [of "n\<lparr>currentTime := 0\<rparr>" ins outs n'] by (simp add: run_def)

section \<open>TC sequence numbers and holds\<close>

text \<open>
  Claim C4. Let the topology table hold an entry \<open>e\<close> at \<open>[d][s]\<close>, and let a TC message
  from \<open>s\<close> carry \<open>d\<close> in its MS list. If the sequence number of the message is at most
  that of \<open>e\<close>, the entry is the same afterwards, its hold included. If it is greater,
  the entry is \<open>e\<close> with \<open>holdUntil\<close> set to the new hold and its old \<open>msSeqNum\<close>.
  Through the handler the new hold is \<open>currentTime + topologyHoldTime\<close>.
\<close>

theorem C4_tc_sequence_check:
  assumes "topologyEntry tbl d (TCMessage.src m) = Some e" and "d \<in> set (ms m)"
  shows "(seq m \<le>s msSeqNum e \<longrightarrow>
            topologyEntry (updateTopologyTable m tbl hold) d (TCMessage.src m) = Some e) \<and>
         (msSeqNum e <s seq m \<longrightarrow>
            topologyEntry (updateTopologyTable m tbl hold) d (TCMessage.src m)
              = Some (e\<lparr>TopologyEntry.holdUntil := hold\<rparr>) \<and>
            msSeqNum (e\<lparr>TopologyEntry.holdUntil := hold\<rparr>) = msSeqNum e) \<and>
         (tbl = topologyTable n \<and> TCMessage.src m \<noteq> id' n \<longrightarrow>
            topologyEntry (topologyTable (fst (handleTC n m))) d (TCMessage.src m)
              = Some (if msSeqNum e <s seq m
                      then e\<lparr>TopologyEntry.holdUntil := currentTime n + topologyHoldTime n\<rparr>
                      else e))"
proof -
  have u: "topologyEntry (updateTopologyTable m tbl h) d (TCMessage.src m) =
      (if msSeqNum e <s seq m then Some (e\<lparr>TopologyEntry.holdUntil := h\<rparr>) else Some e)" for h
    using assms by (simp add: updateTopologyTable_def topologyEntry_updateTopologyEntries)
  show ?thesis
    using u [of hold] u [of "currentTime n + topologyHoldTime n"]
    by (auto simp: handleTC_def sle_not_sless)
qed

text \<open>
  An instance: the stored entry has sequence number 7 and hold 150; a TC with sequence
  number 7 leaves the hold, one with sequence number 8 sets it and keeps the 7.
\<close>

theorem C4_tc_sequence_check_witness:
  "topologyEntry
     (updateTopologyTable \<lparr>TCMessage.src = 5, TCMessage.fromnbr = 5, seq = 7, ms = [9]\<rparr>
        (fmupd 9 (fmupd 5 \<lparr>TopologyEntry.dst = 9, dstMPR = 5, msSeqNum = 7,
                           TopologyEntry.holdUntil = 150\<rparr> fmempty) fmempty) 180) 9 5
     = Some \<lparr>TopologyEntry.dst = 9, dstMPR = 5, msSeqNum = 7, TopologyEntry.holdUntil = 150\<rparr> \<and>
   topologyEntry
     (updateTopologyTable \<lparr>TCMessage.src = 5, TCMessage.fromnbr = 5, seq = 8, ms = [9]\<rparr>
        (fmupd 9 (fmupd 5 \<lparr>TopologyEntry.dst = 9, dstMPR = 5, msSeqNum = 7,
                           TopologyEntry.holdUntil = 150\<rparr> fmempty) fmempty) 180) 9 5
     = Some \<lparr>TopologyEntry.dst = 9, dstMPR = 5, msSeqNum = 7, TopologyEntry.holdUntil = 180\<rparr>"
proof -
  let ?e = "\<lparr>TopologyEntry.dst = 9, dstMPR = 5, msSeqNum = 7, TopologyEntry.holdUntil = 150\<rparr>"
  let ?tbl = "fmupd 9 (fmupd 5 ?e fmempty) fmempty :: TopologyTable"
  let ?m1 = "\<lparr>TCMessage.src = 5, TCMessage.fromnbr = 5, seq = 7, ms = [9]\<rparr>"
  let ?m2 = "\<lparr>TCMessage.src = 5, TCMessage.fromnbr = 5, seq = 8, ms = [9]\<rparr>"
  have h1: "topologyEntry ?tbl 9 (TCMessage.src ?m1) = Some ?e" by (simp add: topologyEntry_def)
  have h2: "topologyEntry ?tbl 9 (TCMessage.src ?m2) = Some ?e" by (simp add: topologyEntry_def)
  have d1: "9 \<in> set (ms ?m1)" and d2: "9 \<in> set (ms ?m2)" by simp_all
  have c1: "seq ?m1 \<le>s msSeqNum ?e" by simp
  have c2: "msSeqNum ?e <s seq ?m2" by simp
  from C4_tc_sequence_check [OF h1 d1, of 180] C4_tc_sequence_check [OF h2 d2, of 180] c1 c2
  show ?thesis by simp
qed

text \<open>
  Claim C5. \<^verbatim>\<open>NewNode\<close> sets \<open>neighborHoldTime\<close> to 15 and leaves \<open>topologyHoldTime\<close> at 0.
  So on a node that \<^verbatim>\<open>NewNode\<close> made, after any run, each topology entry that the TC
  handler creates (there was none at \<open>[d][s]\<close> before, there is one after) has
  \<open>holdUntil\<close> equal to the current tick.
\<close>

theorem C5_newnode_hold_times:
  "neighborHoldTime (NewNode i nm) = 15 \<and> topologyHoldTime (NewNode i nm) = 0 \<and>
   (run (NewNode i nm) ins = (outs, Inr n) \<and>
    topologyEntry (topologyTable n) d s = None \<and>
    topologyEntry (topologyTable (fst (handleTC n m))) d s = Some e \<longrightarrow>
      TopologyEntry.holdUntil e = currentTime n \<and>
      e = \<lparr>TopologyEntry.dst = d, dstMPR = TCMessage.src m, msSeqNum = seq m,
           TopologyEntry.holdUntil = currentTime n\<rparr> \<and>
      s = TCMessage.src m \<and> d \<in> set (ms m) \<and> TCMessage.src m \<noteq> id' n)"
proof -
  have "TopologyEntry.holdUntil e = currentTime n \<and>
      e = \<lparr>TopologyEntry.dst = d, dstMPR = TCMessage.src m, msSeqNum = seq m,
           TopologyEntry.holdUntil = currentTime n\<rparr> \<and>
      s = TCMessage.src m \<and> d \<in> set (ms m) \<and> TCMessage.src m \<noteq> id' n"
    if r: "run (NewNode i nm) ins = (outs, Inr n)"
      and a: "topologyEntry (topologyTable n) d s = None"
      and b: "topologyEntry (topologyTable (fst (handleTC n m))) d s = Some e"
  proof -
    from run_frame [OF r] have z: "topologyHoldTime n = 0" by (simp add: NewNode_def)
    from a b have ne: "TCMessage.src m \<noteq> id' n" by (auto simp: handleTC_def)
    with b z have "topologyEntry (updateTopologyEntries m (currentTime n) (ms m) (topologyTable n)) d s = Some e"
      by (simp add: handleTC_def updateTopologyTable_def)
    with a ne show ?thesis
      by (auto simp: topologyEntry_updateTopologyEntries split: if_splits)
  qed
  moreover have "neighborHoldTime (NewNode i nm) = 15" "topologyHoldTime (NewNode i nm) = 0"
    by (simp_all add: NewNode_def)
  ultimately show ?thesis by blast
qed

text \<open>An instance: after two ticks without input, a TC message of node 5 naming node 9.\<close>

theorem C5_newnode_hold_times_witness:
  "run (NewNode 0 \<lparr>msg = ''hi'', delay = 30, NodeMsg.dst = 2\<rparr>) [None, None] =
     ([Hello \<lparr>HelloMessage.src = 0, unidir = [], bidir = [], mpr = []\<rparr>,
       TC \<lparr>TCMessage.src = 0, TCMessage.fromnbr = 0, seq = 0, ms = []\<rparr>],
      Inr ((NewNode 0 \<lparr>msg = ''hi'', delay = 30, NodeMsg.dst = 2\<rparr>)\<lparr>tcSequenceNum := 1, currentTime := 2\<rparr>)) \<and>
   topologyEntry
     (topologyTable (fst (handleTC
        ((NewNode 0 \<lparr>msg = ''hi'', delay = 30, NodeMsg.dst = 2\<rparr>)\<lparr>tcSequenceNum := 1, currentTime := 2\<rparr>)
        \<lparr>TCMessage.src = 5, TCMessage.fromnbr = 5, seq = 7, ms = [9]\<rparr>))) 9 5
     = Some \<lparr>TopologyEntry.dst = 9, dstMPR = 5, msSeqNum = 7, TopologyEntry.holdUntil = 2\<rparr> \<and>
   TopologyEntry.holdUntil \<lparr>TopologyEntry.dst = 9, dstMPR = 5, msSeqNum = 7, TopologyEntry.holdUntil = 2\<rparr>
     = currentTime ((NewNode 0 \<lparr>msg = ''hi'', delay = 30, NodeMsg.dst = 2\<rparr>)\<lparr>tcSequenceNum := 1, currentTime := 2\<rparr>)"
proof -
  let ?nm = "\<lparr>msg = ''hi'', delay = 30, NodeMsg.dst = 2\<rparr>"
  let ?n = "(NewNode 0 ?nm)\<lparr>tcSequenceNum := 1, currentTime := 2\<rparr>"
  let ?m = "\<lparr>TCMessage.src = 5, TCMessage.fromnbr = 5, seq = 7, ms = [9]\<rparr>"
  let ?e = "\<lparr>TopologyEntry.dst = 9, dstMPR = 5, msSeqNum = 7, TopologyEntry.holdUntil = 2\<rparr>"
  let ?outs = "[Hello \<lparr>HelloMessage.src = 0, unidir = [], bidir = [], mpr = []\<rparr>,
       TC \<lparr>TCMessage.src = 0, TCMessage.fromnbr = 0, seq = 0, ms = []\<rparr>]"
  have r: "run (NewNode 0 ?nm) [None, None] = (?outs, Inr ?n)" by code_simp
  have a: "topologyEntry (topologyTable ?n) 9 5 = None" by (simp add: topologyEntry_def NewNode_def)
  have b: "topologyEntry (topologyTable (fst (handleTC ?n ?m))) 9 5 = Some ?e"
    by (simp add: handleTC_def NewNode_def updateTopologyTable_def topologyEntry_def)
  from C5_newnode_hold_times [of 0 ?nm "[None, None]" ?outs ?n 9 5 ?m ?e] r a b
  show ?thesis by simp
qed

section \<open>The eviction sweeps\<close>

lemma lookup_evictNeighbors:
  "evictNeighbors now es (oneHop, twoHop) = (oneHop', twoHop') \<Longrightarrow>
   fmlookup oneHop' k =
     (if \<exists>e. (k, e) \<in> set es \<and> OneHopNeighborEntry.holdUntil e \<le>s now then None else fmlookup oneHop k) \<and>
   fmlookup twoHop' k =
     (if \<exists>e. (k, e) \<in> set es \<and> OneHopNeighborEntry.holdUntil e \<le>s now then None else fmlookup twoHop k)"
proof (induction es arbitrary: oneHop twoHop)
  case Nil
  then show ?case by simp
next
  case (Cons a es)
  obtain k0 e0 where a: "a = (k0, e0)" by (cases a)
  show ?case
  proof (cases "OneHopNeighborEntry.holdUntil e0 \<le>s now")
    case True
    with Cons.prems a have "evictNeighbors now es (fmdrop k0 oneHop, fmdrop k0 twoHop) = (oneHop', twoHop')"
      by simp
    from Cons.IH [OF this] True a show ?thesis by auto
  next
    case False
    with Cons.prems a have "evictNeighbors now es (oneHop, twoHop) = (oneHop', twoHop')"
      by simp
    from Cons.IH [OF this] False a show ?thesis by auto
  qed
qed

lemma evictNeighbors_entriesOf:
  "evictNeighbors now (entriesOf oneHop) (oneHop, twoHop) = (oneHop', twoHop') \<Longrightarrow>
   fmlookup oneHop' k =
     (case fmlookup oneHop k of None \<Rightarrow> None
      | Some e \<Rightarrow> if OneHopNeighborEntry.holdUntil e \<le>s now then None else Some e) \<and>
   fmlookup twoHop' k =
     (case fmlookup oneHop k of None \<Rightarrow> fmlookup twoHop k
      | Some e \<Rightarrow> if OneHopNeighborEntry.holdUntil e \<le>s now then None else fmlookup twoHop k)"
  using lookup_evictNeighbors [of now "entriesOf oneHop" oneHop twoHop oneHop' twoHop' k]
  by (auto simp: set_entriesOf split: option.splits)

lemma lookup_evictEntries:
  "fmlookup (evictEntries now es d) k =
     (if \<exists>e. (k, e) \<in> set es \<and> TopologyEntry.holdUntil e \<le>s now then None else fmlookup d k)"
  by (induction es arbitrary: d) auto

lemma evictEntries_entriesOf:
  "fmlookup (evictEntries now (entriesOf d) d) k =
     (case fmlookup d k of None \<Rightarrow> None
      | Some e \<Rightarrow> if TopologyEntry.holdUntil e \<le>s now then None else Some e)"
  by (auto simp: lookup_evictEntries set_entriesOf split: option.splits)

lemma lookup_evictTopology:
  "distinct (map fst es) \<Longrightarrow>
   fmlookup (evictTopology now es tbl) k =
     (case map_of es k of None \<Rightarrow> fmlookup tbl k
      | Some d \<Rightarrow> Some (evictEntries now (entriesOf d) d))"
proof (induction es arbitrary: tbl)
  case Nil
  then show ?case by simp
next
  case (Cons a es)
  obtain k0 d0 where a: "a = (k0, d0)" by (cases a)
  from Cons.prems a have d: "distinct (map fst es)" and ni: "map_of es k0 = None"
    by (auto simp: map_of_eq_None_iff)
  show ?case using Cons.IH [OF d] ni a by (auto split: option.splits)
qed

lemma topologyEntry_evictTopology:
  "topologyEntry (evictTopology now (entriesOf tbl) tbl) d s =
     (case topologyEntry tbl d s of None \<Rightarrow> None
      | Some e \<Rightarrow> if TopologyEntry.holdUntil e \<le>s now then None else Some e)"
  by (simp add: topologyEntry_def lookup_evictTopology distinct_entriesOf map_of_entriesOf
        evictEntries_entriesOf split: option.splits)

lemma sless_succ_sle: "(now :: goint) <s h \<Longrightarrow> now + 1 \<le>s h"
proof -
  assume a: "now <s h"
  have b: "sint h < 2 ^ 63" using sint_lt [of h] by simp
  have c: "- (2 ^ 63) \<le> sint now" using sint_ge [of now] by simp
  from a have l: "sint now < sint h" by (simp add: word_sless_alt)
  have "sint (now + 1) = signed_take_bit 63 (sint now + 1)"
    by (simp add: sint_word_ariths)
  also have "\<dots> = sint now + 1"
    using b c l by (intro signed_take_bit_int_eq_self) auto
  finally show ?thesis using l by (simp add: word_sle_eq)
qed

lemma in_fmdom': "k \<in> fmdom' m \<longleftrightarrow> (\<exists>v. fmlookup m k = Some v)"
  by (auto simp: fmdom'_alt_def fmlookup_dom_iff)

lemma tick_unfold:
  assumes "tick n incoming = Inr (n', out)"
  obtains n1 out1 where
     "poll n incoming = Inr (n1, out1)"
     "evictNeighbors (currentTime n) (entriesOf (oneHopNeighbors n1))
        (oneHopNeighbors n1, twoHopNeighbors n1) = (oneHopNeighbors n', twoHopNeighbors n')"
     "topologyTable n' =
        evictTopology (currentTime n) (entriesOf (topologyTable n1)) (topologyTable n1)"
     "currentTime n' = currentTime n + 1" "msSet n' = msSet n1"
     "tcSequenceNum n' = (if goRem (currentTime n) 10 = 0 then tcSequenceNum n + 1 else tcSequenceNum n)"
proof -
  obtain n1 out1 where h: "poll n incoming = Inr (n1, out1)"
    using assms by (auto simp: tick_def split: sum.splits)
  note f = poll_frame [OF h]
  obtain oh th where e: "evictNeighbors (currentTime n) (entriesOf (oneHopNeighbors n1))
        (oneHopNeighbors n1, twoHopNeighbors n1) = (oh, th)"
    by (cases "evictNeighbors (currentTime n) (entriesOf (oneHopNeighbors n1))
        (oneHopNeighbors n1, twoHopNeighbors n1)")
  have "oneHopNeighbors n' = oh \<and> twoHopNeighbors n' = th \<and>
     topologyTable n' =
        evictTopology (currentTime n) (entriesOf (topologyTable n1)) (topologyTable n1) \<and>
     currentTime n' = currentTime n + 1 \<and> msSet n' = msSet n1 \<and>
     tcSequenceNum n' = (if goRem (currentTime n) 10 = 0 then tcSequenceNum n + 1 else tcSequenceNum n)"
    using assms f e unfolding tick_def h
    by (auto simp: sendHello_def sendTC_def split: prod.splits if_splits)
  with h e that show thesis by simp
qed

section \<open>Hold discipline\<close>

text \<open>
  Claim C1, as amended. A tick at time \<open>now\<close> (the clock before the tick) sweeps every
  entry with \<open>holdUntil \<le> now\<close> and then sets the clock to \<open>now + 1\<close>. So after the tick
  every one-hop entry and every topology entry has \<open>holdUntil > now\<close>, which is
  \<open>holdUntil \<ge> currentTime\<close> for the clock after the tick, and no more: equality
  happens. The orders are those of Go's \<^verbatim>\<open>int\<close>; the statement holds up to the last
  value of the clock, since nothing survives a sweep at the greatest \<^verbatim>\<open>int\<close>.
\<close>

theorem C1_hold_discipline_after_tick:
  assumes "tick n incoming = Inr (n', out)"
  shows "(fmlookup (oneHopNeighbors n') k = Some e \<longrightarrow>
            currentTime n <s OneHopNeighborEntry.holdUntil e \<and>
            currentTime n' \<le>s OneHopNeighborEntry.holdUntil e) \<and>
         (topologyEntry (topologyTable n') d s = Some t \<longrightarrow>
            currentTime n <s TopologyEntry.holdUntil t \<and>
            currentTime n' \<le>s TopologyEntry.holdUntil t) \<and>
         currentTime n' = currentTime n + 1"
proof -
  from assms obtain n1 out1 where
    "poll n incoming = Inr (n1, out1)" and
    ev: "evictNeighbors (currentTime n) (entriesOf (oneHopNeighbors n1))
        (oneHopNeighbors n1, twoHopNeighbors n1) = (oneHopNeighbors n', twoHopNeighbors n')" and
    tp: "topologyTable n' =
        evictTopology (currentTime n) (entriesOf (topologyTable n1)) (topologyTable n1)" and
    ct: "currentTime n' = currentTime n + 1" and
    "msSet n' = msSet n1" and
    "tcSequenceNum n' = (if goRem (currentTime n) 10 = 0 then tcSequenceNum n + 1 else tcSequenceNum n)"
    by (rule tick_unfold)
  have a: "currentTime n <s OneHopNeighborEntry.holdUntil e"
    if "fmlookup (oneHopNeighbors n') k = Some e"
    using that evictNeighbors_entriesOf [OF ev, of k]
    by (auto simp: sle_not_sless split: option.splits if_splits)
  have b: "currentTime n <s TopologyEntry.holdUntil t"
    if "topologyEntry (topologyTable n') d s = Some t"
    using that unfolding tp topologyEntry_evictTopology
    by (auto simp: sle_not_sless split: option.splits if_splits)
  from a b ct show ?thesis by (auto dest: sless_succ_sle)
qed

text \<open>An instance: a tick at time 14 keeps a one-hop entry held until 15 and a topology entry held until 20.\<close>

theorem C1_hold_discipline_after_tick_witness:
  "tick ((NewNode 0 \<lparr>msg = ''hi'', delay = 30, NodeMsg.dst = 2\<rparr>)
             \<lparr>topologyTable := fmupd 9 (fmupd 5 \<lparr>TopologyEntry.dst = 9, dstMPR = 5, msSeqNum = 7,
                                                  TopologyEntry.holdUntil = 20\<rparr> fmempty) fmempty,
              oneHopNeighbors := fmupd 1 \<lparr>neighborID = 1, state = Unidirectional,
                                           OneHopNeighborEntry.holdUntil = 15\<rparr> fmempty,
              twoHopNeighbors := fmupd 1 fmempty fmempty,
              currentTime := 14\<rparr>) None
     = Inr ((NewNode 0 \<lparr>msg = ''hi'', delay = 30, NodeMsg.dst = 2\<rparr>)
             \<lparr>topologyTable := fmupd 9 (fmupd 5 \<lparr>TopologyEntry.dst = 9, dstMPR = 5, msSeqNum = 7,
                                                  TopologyEntry.holdUntil = 20\<rparr> fmempty) fmempty,
              oneHopNeighbors := fmupd 1 \<lparr>neighborID = 1, state = Unidirectional,
                                           OneHopNeighborEntry.holdUntil = 15\<rparr> fmempty,
              twoHopNeighbors := fmupd 1 fmempty fmempty,
              currentTime := 15\<rparr>, []) \<and>
   (14 :: goint) <s 15 \<and> (15 :: goint) \<le>s 15 \<and> (14 :: goint) <s 20 \<and> (15 :: goint) \<le>s 20"
proof -
  let ?nm = "\<lparr>msg = ''hi'', delay = 30, NodeMsg.dst = 2\<rparr>"
  let ?e = "\<lparr>neighborID = 1, state = Unidirectional, OneHopNeighborEntry.holdUntil = 15\<rparr>"
  let ?t = "\<lparr>TopologyEntry.dst = 9, dstMPR = 5, msSeqNum = 7, TopologyEntry.holdUntil = 20\<rparr>"
  let ?n = "(NewNode 0 ?nm)\<lparr>topologyTable := fmupd 9 (fmupd 5 ?t fmempty) fmempty,
              oneHopNeighbors := fmupd 1 ?e fmempty, twoHopNeighbors := fmupd 1 fmempty fmempty,
              currentTime := 14\<rparr>"
  let ?n' = "(NewNode 0 ?nm)\<lparr>topologyTable := fmupd 9 (fmupd 5 ?t fmempty) fmempty,
              oneHopNeighbors := fmupd 1 ?e fmempty, twoHopNeighbors := fmupd 1 fmempty fmempty,
              currentTime := 15\<rparr>"
  have t: "tick ?n None = Inr (?n', [])" by code_simp
  have a: "fmlookup (oneHopNeighbors ?n') 1 = Some ?e" by simp
  have b: "topologyEntry (topologyTable ?n') 9 5 = Some ?t" by (simp add: topologyEntry_def)
  from C1_hold_discipline_after_tick [OF t, of 1 ?e 9 5 ?t] a b t
  show ?thesis by simp
qed

text \<open>
  The claim as written asks for \<open>holdUntil > currentTime\<close> after the tick. A node made
  by \<^verbatim>\<open>NewNode\<close> that hears a HELLO of node 1 in its first tick holds the entry until
  15; fourteen ticks in, the tick at time 14 keeps the entry (15 > 14) and moves the
  clock to 15, so that \<open>holdUntil = currentTime\<close>.
\<close>

theorem C1_strict_hold_counterexample:
  "snd (run (NewNode 0 \<lparr>msg = ''hi'', delay = 30, NodeMsg.dst = 2\<rparr>)
          (Some (Hello \<lparr>HelloMessage.src = 1, unidir = [], bidir = [], mpr = []\<rparr>) # replicate 13 None))
     = Inr ((NewNode 0 \<lparr>msg = ''hi'', delay = 30, NodeMsg.dst = 2\<rparr>)
             \<lparr>tcSequenceNum := 2,
              oneHopNeighbors := fmupd 1 \<lparr>neighborID = 1, state = Unidirectional,
                                           OneHopNeighborEntry.holdUntil = 15\<rparr> fmempty,
              twoHopNeighbors := fmupd 1 fmempty fmempty,
              currentTime := 14\<rparr>) \<and>
   tick ((NewNode 0 \<lparr>msg = ''hi'', delay = 30, NodeMsg.dst = 2\<rparr>)
             \<lparr>tcSequenceNum := 2,
              oneHopNeighbors := fmupd 1 \<lparr>neighborID = 1, state = Unidirectional,
                                           OneHopNeighborEntry.holdUntil = 15\<rparr> fmempty,
              twoHopNeighbors := fmupd 1 fmempty fmempty,
              currentTime := 14\<rparr>) None
     = Inr ((NewNode 0 \<lparr>msg = ''hi'', delay = 30, NodeMsg.dst = 2\<rparr>)
             \<lparr>tcSequenceNum := 2,
              oneHopNeighbors := fmupd 1 \<lparr>neighborID = 1, state = Unidirectional,
                                           OneHopNeighborEntry.holdUntil = 15\<rparr> fmempty,
              twoHopNeighbors := fmupd 1 fmempty fmempty,
              currentTime := 15\<rparr>, []) \<and>
   \<not> (currentTime ((NewNode 0 \<lparr>msg = ''hi'', delay = 30, NodeMsg.dst = 2\<rparr>)
             \<lparr>tcSequenceNum := 2,
              oneHopNeighbors := fmupd 1 \<lparr>neighborID = 1, state = Unidirectional,
                                           OneHopNeighborEntry.holdUntil = 15\<rparr> fmempty,
              twoHopNeighbors := fmupd 1 fmempty fmempty,
              currentTime := 15\<rparr>)
        <s OneHopNeighborEntry.holdUntil \<lparr>neighborID = 1, state = Unidirectional,
                                           OneHopNeighborEntry.holdUntil = 15\<rparr>)"
  by code_simp

section \<open>Keys of the two neighbor tables\<close>

lemma dom_assignStates: "fmdom' (assignStates M (entriesOf oneHop) oneHop) = fmdom' oneHop"
  by (auto simp: in_fmdom' lookup_assignStates)

lemma handleHello_keys:
  assumes "handleHello n m = Inr n'"
  shows "fmdom' (oneHopNeighbors n') = insert (HelloMessage.src m) (fmdom' (oneHopNeighbors n)) \<and>
         fmdom' (twoHopNeighbors n') = insert (HelloMessage.src m) (fmdom' (twoHopNeighbors n))"
proof -
  let ?oh = "updateOneHopNeighbors m (oneHopNeighbors n) (currentTime n + neighborHoldTime n) (id' n)"
  let ?th = "updateTwoHopNeighbors m (twoHopNeighbors n) (id' n)"
  obtain M where c: "calculateMPRs ?oh ?th = Inr (assignStates M (entriesOf ?oh) ?oh)"
    using calculateMPRs_total by blast
  from assms c have o: "oneHopNeighbors n' = assignStates M (entriesOf ?oh) ?oh"
    and t: "twoHopNeighbors n' = ?th"
    by (auto simp: handleHello_def Let_def)
  have "fmdom' ?oh = insert (HelloMessage.src m) (fmdom' (oneHopNeighbors n))"
    by (auto simp: updateOneHopNeighbors_def split: option.splits)
  moreover have "fmdom' ?th = insert (HelloMessage.src m) (fmdom' (twoHopNeighbors n))"
    by (simp add: updateTwoHopNeighbors_def)
  ultimately show ?thesis using o t by (simp add: dom_assignStates)
qed

lemma handler_keys:
  "twoHopKeysIncluded n \<Longrightarrow> handler n i = Inr (n', out) \<Longrightarrow> twoHopKeysIncluded n'"
proof (cases i)
  case (Hello m)
  assume a: "twoHopKeysIncluded n" and h: "handler n i = Inr (n', out)"
  from h Hello have "handleHello n m = Inr n'" by (auto split: sum.splits)
  from handleHello_keys [OF this] a show ?thesis by (auto simp: twoHopKeysIncluded_def)
qed (auto simp: twoHopKeysIncluded_def handleTC_def handleData_def split: if_splits)

lemma poll_keys:
  "twoHopKeysIncluded n \<Longrightarrow> poll n incoming = Inr (n', out) \<Longrightarrow> twoHopKeysIncluded n'"
  using handler_keys by (cases incoming) (auto simp: poll_def)

lemma tick_keys:
  assumes "twoHopKeysIncluded n" and "tick n incoming = Inr (n', out)"
  shows "twoHopKeysIncluded n'"
proof -
  from assms(2) obtain n1 out1 where
    h: "poll n incoming = Inr (n1, out1)" and
    ev: "evictNeighbors (currentTime n) (entriesOf (oneHopNeighbors n1))
        (oneHopNeighbors n1, twoHopNeighbors n1) = (oneHopNeighbors n', twoHopNeighbors n')" and
    "topologyTable n' =
        evictTopology (currentTime n) (entriesOf (topologyTable n1)) (topologyTable n1)" and
    "currentTime n' = currentTime n + 1" and "msSet n' = msSet n1" and
    "tcSequenceNum n' = (if goRem (currentTime n) 10 = 0 then tcSequenceNum n + 1 else tcSequenceNum n)"
    by (rule tick_unfold)
  have i1: "twoHopKeysIncluded n1"
    using h assms(1) poll_keys by blast
  show ?thesis
    unfolding twoHopKeysIncluded_def
  proof
    fix k assume "k \<in> fmdom' (twoHopNeighbors n')"
    then obtain v where v: "fmlookup (twoHopNeighbors n') k = Some v"
      by (auto simp: in_fmdom')
    with evictNeighbors_entriesOf [OF ev, of k] have "fmlookup (twoHopNeighbors n1) k = Some v"
      by (auto split: option.splits if_splits)
    then have "k \<in> fmdom' (twoHopNeighbors n1)" by (auto simp: in_fmdom')
    with i1 have "k \<in> fmdom' (oneHopNeighbors n1)" by (auto simp: twoHopKeysIncluded_def)
    then obtain e where e: "fmlookup (oneHopNeighbors n1) k = Some e"
      by (auto simp: in_fmdom')
    with v evictNeighbors_entriesOf [OF ev, of k] show "k \<in> fmdom' (oneHopNeighbors n')"
      by (auto simp: in_fmdom' split: option.splits if_splits)
  qed
qed

lemma ticks_keys:
  "twoHopKeysIncluded n \<Longrightarrow> ticks n ins = (outs, Inr n') \<Longrightarrow> twoHopKeysIncluded n'"
proof (induction ins arbitrary: n outs)
  case Nil
  then show ?case by simp
next
  case (Cons i ins)
  from Cons.prems(2) obtain n1 out1 outs1 where
    t: "tick n i = Inr (n1, out1)" and r: "ticks n1 ins = (outs1, Inr n')"
    by (auto split: sum.splits prod.splits)
  from tick_keys [OF Cons.prems(1) t] Cons.IH r show ?case by blast
qed

text \<open>
  Claim C9. Every key of the two-hop table is a key of the one-hop table: this holds
  for a new node, the HELLO handler puts the source of the message into both tables,
  and the handlers, the two emitters, a whole tick (with its sweep) and a whole run
  keep the inclusion.
\<close>

theorem C9_two_hop_keys_are_one_hop_keys:
  "twoHopKeysIncluded (NewNode i nm) \<and>
   (handleHello n m = Inr n1 \<longrightarrow>
      HelloMessage.src m \<in> fmdom' (oneHopNeighbors n1) \<and>
      HelloMessage.src m \<in> fmdom' (twoHopNeighbors n1)) \<and>
   (twoHopKeysIncluded n \<longrightarrow>
      (handler n incoming = Inr (n2, out2) \<longrightarrow> twoHopKeysIncluded n2) \<and>
      twoHopKeysIncluded (fst (sendHello n)) \<and> twoHopKeysIncluded (fst (sendTC n)) \<and>
      (tick n polled = Inr (n3, out3) \<longrightarrow> twoHopKeysIncluded n3) \<and>
      (run n ins = (outs, Inr n4) \<longrightarrow> twoHopKeysIncluded n4))"
proof -
  have a: "twoHopKeysIncluded (NewNode i nm)"
    by (simp add: twoHopKeysIncluded_def NewNode_def)
  have b: "HelloMessage.src m \<in> fmdom' (oneHopNeighbors n1) \<and>
      HelloMessage.src m \<in> fmdom' (twoHopNeighbors n1)" if "handleHello n m = Inr n1"
    using handleHello_keys [OF that] by simp
  have c: "twoHopKeysIncluded (fst (sendHello n)) \<and> twoHopKeysIncluded (fst (sendTC n))"
    if "twoHopKeysIncluded n"
    using that by (simp add: twoHopKeysIncluded_def sendHello_def sendTC_def split: prod.splits)
  have d: "twoHopKeysIncluded n4" if "twoHopKeysIncluded n" "run n ins = (outs, Inr n4)"
    using ticks_keys [of "n\<lparr>currentTime := 0\<rparr>" ins outs n4] that
    by (simp add: run_def twoHopKeysIncluded_def)
  from a b c d handler_keys tick_keys show ?thesis by blast
qed

text \<open>An instance: the first tick of a new node that hears a HELLO of node 1.\<close>

theorem C9_two_hop_keys_are_one_hop_keys_witness:
  "twoHopKeysIncluded (NewNode 0 \<lparr>msg = ''hi'', delay = 30, NodeMsg.dst = 2\<rparr>) \<and>
   tick (NewNode 0 \<lparr>msg = ''hi'', delay = 30, NodeMsg.dst = 2\<rparr>)
        (Some (Hello \<lparr>HelloMessage.src = 1, unidir = [], bidir = [0, 2], mpr = []\<rparr>))
     = Inr ((NewNode 0 \<lparr>msg = ''hi'', delay = 30, NodeMsg.dst = 2\<rparr>)
             \<lparr>tcSequenceNum := 1,
              oneHopNeighbors := fmupd 1 \<lparr>neighborID = 1, state = Unidirectional,
                                           OneHopNeighborEntry.holdUntil = 15\<rparr> fmempty,
              twoHopNeighbors := fmupd 1 (fmupd 2 2 fmempty) fmempty,
              currentTime := 1\<rparr>,
            [Hello \<lparr>HelloMessage.src = 0, unidir = [1], bidir = [], mpr = []\<rparr>,
             TC \<lparr>TCMessage.src = 0, TCMessage.fromnbr = 0, seq = 0, ms = []\<rparr>]) \<and>
   twoHopKeysIncluded ((NewNode 0 \<lparr>msg = ''hi'', delay = 30, NodeMsg.dst = 2\<rparr>)
             \<lparr>tcSequenceNum := 1,
              oneHopNeighbors := fmupd 1 \<lparr>neighborID = 1, state = Unidirectional,
                                           OneHopNeighborEntry.holdUntil = 15\<rparr> fmempty,
              twoHopNeighbors := fmupd 1 (fmupd 2 2 fmempty) fmempty,
              currentTime := 1\<rparr>)"
proof -
  let ?nm = "\<lparr>msg = ''hi'', delay = 30, NodeMsg.dst = 2\<rparr>"
  let ?h = "\<lparr>HelloMessage.src = 1, unidir = [], bidir = [0, 2], mpr = []\<rparr>"
  let ?n3 = "(NewNode 0 ?nm)\<lparr>tcSequenceNum := 1,
              oneHopNeighbors := fmupd 1 \<lparr>neighborID = 1, state = Unidirectional,
                                           OneHopNeighborEntry.holdUntil = 15\<rparr> fmempty,
              twoHopNeighbors := fmupd 1 (fmupd 2 2 fmempty) fmempty,
              currentTime := 1\<rparr>"
  let ?o = "[Hello \<lparr>HelloMessage.src = 0, unidir = [1], bidir = [], mpr = []\<rparr>,
             TC \<lparr>TCMessage.src = 0, TCMessage.fromnbr = 0, seq = 0, ms = []\<rparr>]"
  have t: "tick (NewNode 0 ?nm) (Some (Hello ?h)) = Inr (?n3, ?o)" by code_simp
  from C9_two_hop_keys_are_one_hop_keys [where i = 0 and nm = ?nm and n = "NewNode 0 ?nm"
      and polled = "Some (Hello ?h)" and ?n3.0 = ?n3 and ?out3.0 = ?o] t
  show ?thesis by simp
qed

section \<open>MPR cover\<close>

lemma calculateMPRs_selected:
  "calculateMPRs oneHop twoHop =
     (case selected oneHop twoHop of Inl e \<Rightarrow> Inl e
      | Inr M \<Rightarrow> Inr (assignStates M (entriesOf oneHop) oneHop))"
  by (simp add: calculateMPRs_def selected_def split: prod.splits)

lemma selected_total:
  "\<exists>M. selected oneHop twoHop = Inr M \<and>
       fmdom' M \<subseteq> set (candidates oneHop twoHop) \<and>
       (\<forall>c \<in> set (candidates oneHop twoHop). \<forall>x \<in> announced twoHop c.
           \<exists>m \<in> fmdom' M. x \<in> announced twoHop m)"
proof -
  obtain remaining where
    g: "gatherCandidates oneHop (entriesOf twoHop) ([], fmempty) = (candidates oneHop twoHop, remaining)" and
    r: "fmdom' remaining = (\<Union>c \<in> set (candidates oneHop twoHop). announced twoHop c)"
    using gatherCandidates_entriesOf by blast
  have "fmdom' remaining \<subseteq> (\<Union>c \<in> set (sort (candidates oneHop twoHop)). announced twoHop c)"
    using r by simp
  from selectMPRs_total [OF this] obtain M where
    s: "selectMPRs twoHop (sort (candidates oneHop twoHop)) remaining fmempty = Inr M" by blast
  from selectMPRs_spec [OF s] r have
    "fmdom' M \<subseteq> set (candidates oneHop twoHop)"
    "\<forall>c \<in> set (candidates oneHop twoHop). \<forall>x \<in> announced twoHop c. \<exists>m \<in> fmdom' M. x \<in> announced twoHop m"
    by auto
  moreover have "selected oneHop twoHop = Inr M"
    by (simp add: selected_def g s)
  ultimately show ?thesis by blast
qed

lemma candidates_iff:
  "c \<in> set (candidates oneHop twoHop) \<longleftrightarrow> c \<in> fmdom' twoHop \<and> nonUni oneHop c"
  by (auto simp: candidates_def set_keysOf)

lemma nonUni_Some: "fmlookup oneHop c = Some e \<Longrightarrow> nonUni oneHop c \<longleftrightarrow> state e \<noteq> Unidirectional"
  by (simp add: nonUni_def lookupOneHop_def)

lemma announced_dom: "x \<in> announced twoHop c \<Longrightarrow> c \<in> fmdom' twoHop"
  by (auto simp: announced_def in_fmdom' split: option.splits)

lemma state_reassign:
  "state (reassign M k e) = (if fmlookup M k \<noteq> None then MPR
                             else if state e = MPR then Bidirectional else state e)"
  by (simp add: reassign_def)

lemma mpr_cover_tables:
  assumes "fmdom' twoHop \<subseteq> fmdom' oneHop"
  shows "\<exists>oneHop'. calculateMPRs oneHop twoHop = Inr oneHop' \<and>
     fmdom' oneHop' = fmdom' oneHop \<and>
     (\<forall>c e. fmlookup oneHop c = Some e \<longrightarrow>
        (\<exists>e'. fmlookup oneHop' c = Some e' \<and>
              (state e' = Unidirectional \<longleftrightarrow> state e = Unidirectional))) \<and>
     (\<forall>c e x. fmlookup oneHop c = Some e \<and> state e \<noteq> Unidirectional \<and> x \<in> announced twoHop c \<longrightarrow>
        (\<exists>m e'. fmlookup oneHop' m = Some e' \<and> state e' = MPR \<and> x \<in> announced twoHop m))"
proof -
  obtain M where s: "selected oneHop twoHop = Inr M"
    and sub: "fmdom' M \<subseteq> set (candidates oneHop twoHop)"
    and cov: "\<forall>c \<in> set (candidates oneHop twoHop). \<forall>x \<in> announced twoHop c.
           \<exists>m \<in> fmdom' M. x \<in> announced twoHop m"
    using selected_total by blast
  let ?oh = "assignStates M (entriesOf oneHop) oneHop"
  have c: "calculateMPRs oneHop twoHop = Inr ?oh"
    by (simp add: calculateMPRs_selected s)
  have uni: "\<exists>e'. fmlookup ?oh c = Some e' \<and> (state e' = Unidirectional \<longleftrightarrow> state e = Unidirectional)"
    if l: "fmlookup oneHop c = Some e" for c e
  proof -
    have "fmlookup M c \<noteq> None \<Longrightarrow> state e \<noteq> Unidirectional"
    proof -
      assume "fmlookup M c \<noteq> None"
      then have "c \<in> fmdom' M" by (auto simp: in_fmdom')
      with sub have "nonUni oneHop c" by (auto simp: candidates_iff)
      with l show ?thesis by (simp add: nonUni_Some)
    qed
    then show ?thesis using l by (auto simp: lookup_assignStates state_reassign)
  qed
  have cover: "\<exists>m e'. fmlookup ?oh m = Some e' \<and> state e' = MPR \<and> x \<in> announced twoHop m"
    if l: "fmlookup oneHop c = Some e" and ns: "state e \<noteq> Unidirectional"
      and x: "x \<in> announced twoHop c" for c e x
  proof -
    from l ns x have "c \<in> set (candidates oneHop twoHop)"
      by (simp add: candidates_iff announced_dom nonUni_Some)
    with cov x obtain m where m: "m \<in> fmdom' M" and xm: "x \<in> announced twoHop m" by blast
    from xm have "m \<in> fmdom' twoHop" by (rule announced_dom)
    with assms have "m \<in> fmdom' oneHop" by blast
    then obtain em where em: "fmlookup oneHop m = Some em" by (auto simp: in_fmdom')
    from m have "fmlookup M m \<noteq> None" by (auto simp: in_fmdom')
    with em have "fmlookup ?oh m = Some (reassign M m em) \<and> state (reassign M m em) = MPR"
      by (simp add: lookup_assignStates state_reassign)
    with xm show ?thesis by blast
  qed
  have "fmdom' ?oh = fmdom' oneHop" by (rule dom_assignStates)
  with c uni cover show ?thesis by blast
qed

lemma mpr_cover_handleHello:
  assumes "twoHopKeysIncluded n"
  shows "\<exists>n'. handleHello n m = Inr n' \<and>
     (\<forall>c e x. fmlookup (oneHopNeighbors n') c = Some e \<and> state e \<noteq> Unidirectional \<and>
              x \<in> announced (twoHopNeighbors n') c \<longrightarrow>
        (\<exists>k e'. fmlookup (oneHopNeighbors n') k = Some e' \<and> state e' = MPR \<and>
                x \<in> announced (twoHopNeighbors n') k))"
proof -
  let ?oh = "updateOneHopNeighbors m (oneHopNeighbors n) (currentTime n + neighborHoldTime n) (id' n)"
  let ?th = "updateTwoHopNeighbors m (twoHopNeighbors n) (id' n)"
  have "fmdom' ?oh = insert (HelloMessage.src m) (fmdom' (oneHopNeighbors n))"
    by (auto simp: updateOneHopNeighbors_def split: option.splits)
  moreover have "fmdom' ?th = insert (HelloMessage.src m) (fmdom' (twoHopNeighbors n))"
    by (simp add: updateTwoHopNeighbors_def)
  ultimately have inc: "fmdom' ?th \<subseteq> fmdom' ?oh"
    using assms by (auto simp: twoHopKeysIncluded_def)
  from mpr_cover_tables [OF inc] obtain oh' where
    c: "calculateMPRs ?oh ?th = Inr oh'" and
    d: "fmdom' oh' = fmdom' ?oh" and
    u: "\<forall>c e. fmlookup ?oh c = Some e \<longrightarrow>
        (\<exists>e'. fmlookup oh' c = Some e' \<and>
              (state e' = Unidirectional \<longleftrightarrow> state e = Unidirectional))" and
    v: "\<forall>c e x. fmlookup ?oh c = Some e \<and> state e \<noteq> Unidirectional \<and> x \<in> announced ?th c \<longrightarrow>
        (\<exists>m e'. fmlookup oh' m = Some e' \<and> state e' = MPR \<and> x \<in> announced ?th m)"
    by blast
  let ?n' = "n\<lparr>oneHopNeighbors := oh', twoHopNeighbors := ?th,
               msSet := updateMsSet m (id' n) (msSet n)\<rparr>"
  have h: "handleHello n m = Inr ?n'" by (simp add: handleHello_def Let_def c)
  have "\<exists>k e'. fmlookup oh' k = Some e' \<and> state e' = MPR \<and> x \<in> announced ?th k"
    if l: "fmlookup oh' c = Some e" and ns: "state e \<noteq> Unidirectional"
      and x: "x \<in> announced ?th c" for c e x
  proof -
    from l have "c \<in> fmdom' oh'" by (auto simp: in_fmdom')
    with d obtain e0 where e0: "fmlookup ?oh c = Some e0" by (auto simp: in_fmdom')
    with u l ns have "state e0 \<noteq> Unidirectional" by (metis option.inject)
    with e0 x v show ?thesis by blast
  qed
  then have "\<forall>c e x. fmlookup oh' c = Some e \<and> state e \<noteq> Unidirectional \<and>
              x \<in> announced ?th c \<longrightarrow>
        (\<exists>k e'. fmlookup oh' k = Some e' \<and> state e' = MPR \<and> x \<in> announced ?th k)"
    by blast
  then have "\<forall>c e x. fmlookup (oneHopNeighbors ?n') c = Some e \<and> state e \<noteq> Unidirectional \<and>
              x \<in> announced (twoHopNeighbors ?n') c \<longrightarrow>
        (\<exists>k e'. fmlookup (oneHopNeighbors ?n') k = Some e' \<and> state e' = MPR \<and>
                x \<in> announced (twoHopNeighbors ?n') k)"
    by simp
  with h show ?thesis by blast
qed

text \<open>
  Claim C2, as amended. Let every key of the two-hop table be a key of the one-hop table.
  Then \<^verbatim>\<open>calculateMPRs\<close> returns, it keeps the keys of the one-hop table, it leaves
  Unidirectional entries Unidirectional and the others not, and every two-hop NodeID
  announced by a one-hop neighbour that is not Unidirectional lies in the announced set
  of a one-hop entry whose new state is MPR. A node has the inclusion in every state
  (claim C9), so the tables it has after handling a HELLO message have the cover.
\<close>

theorem C2_mpr_cover:
  "(fmdom' twoHop \<subseteq> fmdom' oneHop \<longrightarrow>
     (\<exists>oneHop'. calculateMPRs oneHop twoHop = Inr oneHop' \<and>
        fmdom' oneHop' = fmdom' oneHop \<and>
        (\<forall>c e. fmlookup oneHop c = Some e \<longrightarrow>
           (\<exists>e'. fmlookup oneHop' c = Some e' \<and>
                 (state e' = Unidirectional \<longleftrightarrow> state e = Unidirectional))) \<and>
        (\<forall>c e x. fmlookup oneHop c = Some e \<and> state e \<noteq> Unidirectional \<and>
                 x \<in> announced twoHop c \<longrightarrow>
           (\<exists>m e'. fmlookup oneHop' m = Some e' \<and> state e' = MPR \<and>
                   x \<in> announced twoHop m)))) \<and>
   (twoHopKeysIncluded n \<longrightarrow>
     (\<exists>n'. handleHello n hello = Inr n' \<and>
        (\<forall>c e x. fmlookup (oneHopNeighbors n') c = Some e \<and> state e \<noteq> Unidirectional \<and>
                 x \<in> announced (twoHopNeighbors n') c \<longrightarrow>
           (\<exists>k e'. fmlookup (oneHopNeighbors n') k = Some e' \<and> state e' = MPR \<and>
                   x \<in> announced (twoHopNeighbors n') k))))"
  using mpr_cover_tables [of twoHop oneHop] mpr_cover_handleHello [of n hello] by blast

text \<open>
  Instances: the tables of the test "ensure coverage", where both neighbours become MPR;
  and a node with the inclusion that hears neighbour 2 announce itself and node 4.
\<close>

theorem C2_mpr_cover_witness:
  "fmdom' (fmupd 1 (fmupd 3 3 fmempty) (fmupd 2 (fmupd 4 4 fmempty) fmempty) :: TwoHopTable)
     \<subseteq> fmdom' (fmupd 1 \<lparr>neighborID = 1, state = Bidirectional, OneHopNeighborEntry.holdUntil = 20\<rparr>
                 (fmupd 2 \<lparr>neighborID = 1, state = Bidirectional, OneHopNeighborEntry.holdUntil = 20\<rparr>
                    fmempty)) \<and>
   calculateMPRs
     (fmupd 1 \<lparr>neighborID = 1, state = Bidirectional, OneHopNeighborEntry.holdUntil = 20\<rparr>
        (fmupd 2 \<lparr>neighborID = 1, state = Bidirectional, OneHopNeighborEntry.holdUntil = 20\<rparr> fmempty))
     (fmupd 1 (fmupd 3 3 fmempty) (fmupd 2 (fmupd 4 4 fmempty) fmempty))
   = Inr (fmupd 1 \<lparr>neighborID = 1, state = MPR, OneHopNeighborEntry.holdUntil = 20\<rparr>
            (fmupd 2 \<lparr>neighborID = 1, state = MPR, OneHopNeighborEntry.holdUntil = 20\<rparr> fmempty)) \<and>
   (\<exists>m e'. fmlookup (fmupd 1 \<lparr>neighborID = 1, state = MPR, OneHopNeighborEntry.holdUntil = 20\<rparr>
            (fmupd 2 \<lparr>neighborID = 1, state = MPR, OneHopNeighborEntry.holdUntil = 20\<rparr> fmempty)) m = Some e' \<and>
        state e' = MPR \<and>
        4 \<in> announced (fmupd 1 (fmupd 3 3 fmempty) (fmupd 2 (fmupd 4 4 fmempty) fmempty)) m) \<and>
   twoHopKeysIncluded ((NewNode 0 \<lparr>msg = ''hi'', delay = 30, NodeMsg.dst = 2\<rparr>)
      \<lparr>oneHopNeighbors :=
         fmupd 1 \<lparr>neighborID = 1, state = Bidirectional, OneHopNeighborEntry.holdUntil = 20\<rparr>
           (fmupd 2 \<lparr>neighborID = 2, state = Unidirectional, OneHopNeighborEntry.holdUntil = 20\<rparr> fmempty),
       twoHopNeighbors := fmupd 1 (fmupd 3 3 fmempty) (fmupd 2 (fmupd 3 3 fmempty) fmempty)\<rparr>) \<and>
   handleHello ((NewNode 0 \<lparr>msg = ''hi'', delay = 30, NodeMsg.dst = 2\<rparr>)
      \<lparr>oneHopNeighbors :=
         fmupd 1 \<lparr>neighborID = 1, state = Bidirectional, OneHopNeighborEntry.holdUntil = 20\<rparr>
           (fmupd 2 \<lparr>neighborID = 2, state = Unidirectional, OneHopNeighborEntry.holdUntil = 20\<rparr> fmempty),
       twoHopNeighbors := fmupd 1 (fmupd 3 3 fmempty) (fmupd 2 (fmupd 3 3 fmempty) fmempty)\<rparr>)
     \<lparr>HelloMessage.src = 2, unidir = [], bidir = [0, 4], mpr = []\<rparr>
   = Inr ((NewNode 0 \<lparr>msg = ''hi'', delay = 30, NodeMsg.dst = 2\<rparr>)
      \<lparr>oneHopNeighbors :=
         fmupd 1 \<lparr>neighborID = 1, state = MPR, OneHopNeighborEntry.holdUntil = 20\<rparr>
           (fmupd 2 \<lparr>neighborID = 2, state = MPR, OneHopNeighborEntry.holdUntil = 15\<rparr> fmempty),
       twoHopNeighbors := fmupd 1 (fmupd 3 3 fmempty) (fmupd 2 (fmupd 4 4 fmempty) fmempty)\<rparr>)"
proof -
  let ?b = "\<lparr>neighborID = 1, state = Bidirectional, OneHopNeighborEntry.holdUntil = 20\<rparr>"
  let ?oh = "fmupd 1 ?b (fmupd 2 ?b fmempty) :: OneHopTable"
  let ?th = "fmupd 1 (fmupd 3 3 fmempty) (fmupd 2 (fmupd 4 4 fmempty) fmempty) :: TwoHopTable"
  let ?p = "\<lparr>neighborID = 1, state = MPR, OneHopNeighborEntry.holdUntil = 20\<rparr>"
  let ?oh' = "fmupd 1 ?p (fmupd 2 ?p fmempty) :: OneHopTable"
  let ?nm = "\<lparr>msg = ''hi'', delay = 30, NodeMsg.dst = 2\<rparr>"
  let ?n = "(NewNode 0 ?nm)
      \<lparr>oneHopNeighbors :=
         fmupd 1 ?b
           (fmupd 2 \<lparr>neighborID = 2, state = Unidirectional, OneHopNeighborEntry.holdUntil = 20\<rparr> fmempty),
       twoHopNeighbors := fmupd 1 (fmupd 3 3 fmempty) (fmupd 2 (fmupd 3 3 fmempty) fmempty)\<rparr>"
  let ?n' = "(NewNode 0 ?nm)
      \<lparr>oneHopNeighbors :=
         fmupd 1 ?p
           (fmupd 2 \<lparr>neighborID = 2, state = MPR, OneHopNeighborEntry.holdUntil = 15\<rparr> fmempty),
       twoHopNeighbors := ?th\<rparr>"
  let ?hello = "\<lparr>HelloMessage.src = 2, unidir = [], bidir = [0, 4], mpr = []\<rparr>"
  have h: "fmdom' ?th \<subseteq> fmdom' ?oh" by simp
  have c: "calculateMPRs ?oh ?th = Inr ?oh'" by code_simp
  have l: "fmlookup ?oh 2 = Some ?b \<and> state ?b \<noteq> Unidirectional \<and> 4 \<in> announced ?th 2"
    by (simp add: announced_def)
  have k: "twoHopKeysIncluded ?n" by (simp add: twoHopKeysIncluded_def)
  have g: "handleHello ?n ?hello = Inr ?n'" by code_simp
  from C2_mpr_cover [of ?th ?oh ?n ?hello] h c l have
    "\<exists>m e'. fmlookup ?oh' m = Some e' \<and> state e' = MPR \<and> 4 \<in> announced ?th m"
    by (metis sum.inject(2))
  with h c k g show ?thesis by blast
qed

text \<open>
  Without the inclusion the cover fails. Here the two-hop table has the key 1, the
  one-hop table has not: the missing entry reads as the zero entry, which is
  Bidirectional, so 1 is a candidate, the first one, and it covers 3. The loop stops
  there, the last loop finds no one-hop entry for 1, and neighbour 2, which is
  Bidirectional and announced 3, stays Bidirectional: no MPR entry covers 3.
\<close>

theorem C2_missing_one_hop_key_counterexample:
  "calculateMPRs
     (fmupd 2 \<lparr>neighborID = 2, state = Bidirectional, OneHopNeighborEntry.holdUntil = 20\<rparr> fmempty)
     (fmupd 1 (fmupd 3 3 fmempty) (fmupd 2 (fmupd 3 3 fmempty) fmempty))
   = Inr (fmupd 2 \<lparr>neighborID = 2, state = Bidirectional, OneHopNeighborEntry.holdUntil = 20\<rparr> fmempty) \<and>
   fmlookup (fmupd 1 (fmupd 3 3 fmempty) (fmupd 2 (fmupd 3 3 fmempty) fmempty) :: TwoHopTable) 2
     = Some (fmupd 3 3 fmempty) \<and>
   candidates
     (fmupd 2 \<lparr>neighborID = 2, state = Bidirectional, OneHopNeighborEntry.holdUntil = 20\<rparr> fmempty)
     (fmupd 1 (fmupd 3 3 fmempty) (fmupd 2 (fmupd 3 3 fmempty) fmempty)) = [1, 2] \<and>
   keysOf (fmupd 2 \<lparr>neighborID = 2, state = Bidirectional, OneHopNeighborEntry.holdUntil = 20\<rparr> fmempty) = [2] \<and>
   state \<lparr>neighborID = 2, state = Bidirectional, OneHopNeighborEntry.holdUntil = 20\<rparr> \<noteq> MPR"
  by code_simp

section \<open>TC sequence numbers\<close>









section \<open>The same HELLO twice\<close>

lemma checkLinkState_eq:
  "checkLinkState i xs e = (if i \<in> set xs then e\<lparr>state := Bidirectional\<rparr> else e)"
  by (induction xs) auto

lemma isMS_eq: "isMS i xs \<longleftrightarrow> i \<in> set xs"
  by (induction xs) auto

lemma updateMsSet_idem: "updateMsSet m i (updateMsSet m i s) = updateMsSet m i s"
  by (cases "fmlookup s (HelloMessage.src m)"; cases "isMS i (mpr m)")
     (simp_all add: updateMsSet_def)

lemma updateTwoHopNeighbors_idem:
  "updateTwoHopNeighbors m (updateTwoHopNeighbors m twoHop i) i = updateTwoHopNeighbors m twoHop i"
  by (simp add: updateTwoHopNeighbors_def)

lemma gatherCandidates_cong:
  "(\<And>k. nonUni oneHop' k = nonUni oneHop k) \<Longrightarrow>
   gatherCandidates oneHop' es acc = gatherCandidates oneHop es acc"
proof (induction es arbitrary: acc)
  case Nil
  then show ?case by simp
next
  case (Cons a es)
  obtain k v where a: "a = (k, v)" by (cases a)
  obtain nodes remaining where acc: "acc = (nodes, remaining)" by (cases acc)
  from Cons.prems [of k] have "(state (lookupOneHop oneHop' k) = Unidirectional)
       = (state (lookupOneHop oneHop k) = Unidirectional)"
    by (simp add: nonUni_def)
  with Cons.IH [OF Cons.prems] a acc show ?case by simp
qed

lemma selected_cong:
  "(\<And>k. nonUni oneHop' k = nonUni oneHop k) \<Longrightarrow> selected oneHop' twoHop = selected oneHop twoHop"
proof -
  assume a: "\<And>k. nonUni oneHop' k = nonUni oneHop k"
  have "gatherCandidates oneHop' (entriesOf twoHop) ([], fmempty)
        = gatherCandidates oneHop (entriesOf twoHop) ([], fmempty)"
    by (rule gatherCandidates_cong) (rule a)
  then show ?thesis by (simp only: selected_def)
qed

lemma reassign_idem: "reassign M k (reassign M k e) = reassign M k e"
  by (simp add: reassign_def)

lemma holdUntil_reassign:
  "OneHopNeighborEntry.holdUntil (reassign M k e) = OneHopNeighborEntry.holdUntil e"
  by (simp add: reassign_def)

lemma lookup_updateOneHopNeighbors:
  "fmlookup (updateOneHopNeighbors m oneHop hold i) k =
     (if k = HelloMessage.src m then
        Some (case fmlookup oneHop k of
                None \<Rightarrow> \<lparr>neighborID = k, state = Unidirectional, OneHopNeighborEntry.holdUntil = hold\<rparr>
              | Some e \<Rightarrow> (if i \<in> set (unidir m @ bidir m @ mpr m)
                           then e\<lparr>OneHopNeighborEntry.holdUntil := hold, state := Bidirectional\<rparr>
                           else e\<lparr>OneHopNeighborEntry.holdUntil := hold\<rparr>))
      else fmlookup oneHop k)"
  by (cases "fmlookup oneHop (HelloMessage.src m)")
     (simp_all add: updateOneHopNeighbors_def checkLinkState_eq)

text \<open>
  The tables after a second handling of the same message, with the same hold: the
  selection sees the same candidates, so it selects the same set, and the states it
  assigns are those of the first handling.
\<close>

lemma hello_tables_idem:
  fixes m :: HelloMessage and oneHop :: OneHopTable and twoHop :: TwoHopTable
  defines "s \<equiv> HelloMessage.src m"
  assumes cond: "s \<in> fmdom' oneHop \<or> i \<notin> set (unidir m @ bidir m @ mpr m)"
    and sel: "selected (updateOneHopNeighbors m oneHop hold i) twoHop1 = Inr M"
  defines "oh1 \<equiv> updateOneHopNeighbors m oneHop hold i"
  defines "oh2 \<equiv> assignStates M (entriesOf oh1) oh1"
  defines "oh3 \<equiv> updateOneHopNeighbors m oh2 hold i"
  shows "selected oh3 twoHop1 = Inr M" and "assignStates M (entriesOf oh3) oh3 = oh2"
proof -
  let ?listed = "i \<in> set (unidir m @ bidir m @ mpr m)"
  obtain e1 where e1: "fmlookup oh1 s = Some e1"
    and h1: "OneHopNeighborEntry.holdUntil e1 = hold"
    and b1: "?listed \<Longrightarrow> state e1 = Bidirectional"
    using cond unfolding oh1_def s_def
    by (cases "fmlookup oneHop (HelloMessage.src m)")
       (auto simp: lookup_updateOneHopNeighbors in_fmdom')
  have l2: "fmlookup oh2 k = map_option (reassign M k) (fmlookup oh1 k)" for k
    by (simp add: oh2_def lookup_assignStates)
  have l3s: "fmlookup oh3 s =
      Some (if ?listed then (reassign M s e1)\<lparr>OneHopNeighborEntry.holdUntil := hold, state := Bidirectional\<rparr>
            else (reassign M s e1)\<lparr>OneHopNeighborEntry.holdUntil := hold\<rparr>)"
    by (simp add: oh3_def lookup_updateOneHopNeighbors l2 e1 s_def [symmetric])
  have l3o: "fmlookup oh3 k = map_option (reassign M k) (fmlookup oh1 k)" if "k \<noteq> s" for k
    using that by (simp add: oh3_def lookup_updateOneHopNeighbors l2 s_def)
  have hr: "(reassign M s e1)\<lparr>OneHopNeighborEntry.holdUntil := hold\<rparr> = reassign M s e1"
    using h1 by (cases e1) (simp add: reassign_def)
  from selected_total [of oh1 twoHop1] sel have sub: "fmdom' M \<subseteq> set (candidates oh1 twoHop1)"
    by (simp add: oh1_def)
  have inM: "state e \<noteq> Unidirectional" if "fmlookup M k \<noteq> None" "fmlookup oh1 k = Some e" for k e
  proof -
    from that(1) have "k \<in> fmdom' M" by (auto simp: in_fmdom')
    with sub have "nonUni oh1 k" by (auto simp: candidates_iff)
    with that(2) show ?thesis by (simp add: nonUni_Some)
  qed
  have uni_re: "(state (reassign M k e) = Unidirectional) = (state e = Unidirectional)"
    if "fmlookup oh1 k = Some e" for k e
    using inM [OF _ that] by (auto simp: state_reassign)
  have nu: "nonUni oh3 k = nonUni oh1 k" for k
  proof (cases "k = s")
    case True
    show ?thesis
    proof (cases ?listed)
      case True
      with \<open>k = s\<close> l3s e1 b1 show ?thesis by (simp add: nonUni_def lookupOneHop_def)
    next
      case False
      with \<open>k = s\<close> l3s e1 hr uni_re [OF e1] show ?thesis
        by (simp add: nonUni_def lookupOneHop_def)
    qed
  next
    case False
    show ?thesis
    proof (cases "fmlookup oh1 k")
      case None
      with False l3o show ?thesis by (simp add: nonUni_def lookupOneHop_def)
    next
      case (Some e)
      with False l3o uni_re [OF Some] show ?thesis by (simp add: nonUni_def lookupOneHop_def)
    qed
  qed
  from selected_cong [of oh3 oh1 twoHop1, OF nu] sel
  show "selected oh3 twoHop1 = Inr M" by (simp add: oh1_def)
  show "assignStates M (entriesOf oh3) oh3 = oh2"
  proof (rule fmap_ext)
    fix k
    show "fmlookup (assignStates M (entriesOf oh3) oh3) k = fmlookup oh2 k"
    proof (cases "k = s")
      case False
      with l3o l2 show ?thesis
        by (cases "fmlookup oh1 k") (simp_all add: lookup_assignStates reassign_idem)
    next
      case True
      show ?thesis
      proof (cases ?listed)
        case False
        with True l3s l2 e1 hr show ?thesis
          by (simp add: lookup_assignStates reassign_idem)
      next
        case True
        from b1 [OF True] have "(reassign M s e1)\<lparr>state := Bidirectional\<rparr> = e1"
          by (cases e1) (simp add: reassign_def)
        with True l3s hr have "fmlookup oh3 s = Some e1" by simp
        with \<open>k = s\<close> l2 e1 show ?thesis by (simp add: lookup_assignStates)
      qed
    qed
  qed
qed

text \<open>
  Claim C3, as amended. If the source of the HELLO message already has a one-hop entry,
  or the node's own id is in none of the three lists of the message, then handling the
  message a second time at the same tick gives the state that handling it once gave.
\<close>

theorem C3_hello_twice:
  assumes "HelloMessage.src m \<in> fmdom' (oneHopNeighbors n) \<or>
           id' n \<notin> set (unidir m @ bidir m @ mpr m)"
  shows "\<exists>n1. handleHello n m = Inr n1 \<and> handleHello n1 m = Inr n1"
proof -
  let ?h = "currentTime n + neighborHoldTime n"
  let ?oh1 = "updateOneHopNeighbors m (oneHopNeighbors n) ?h (id' n)"
  let ?th1 = "updateTwoHopNeighbors m (twoHopNeighbors n) (id' n)"
  obtain M where sel: "selected ?oh1 ?th1 = Inr M" using selected_total by blast
  let ?oh2 = "assignStates M (entriesOf ?oh1) ?oh1"
  let ?oh3 = "updateOneHopNeighbors m ?oh2 ?h (id' n)"
  let ?n1 = "n\<lparr>oneHopNeighbors := ?oh2, twoHopNeighbors := ?th1,
               msSet := updateMsSet m (id' n) (msSet n)\<rparr>"
  have first: "handleHello n m = Inr ?n1"
    by (simp add: handleHello_def Let_def calculateMPRs_selected sel)
  from hello_tables_idem [OF assms sel]
  have s3: "selected ?oh3 ?th1 = Inr M" and a3: "assignStates M (entriesOf ?oh3) ?oh3 = ?oh2"
    by simp_all
  have "handleHello ?n1 m = Inr ?n1"
    by (simp add: handleHello_def Let_def updateTwoHopNeighbors_idem calculateMPRs_selected
          s3 a3 updateMsSet_idem)
  with first show ?thesis by blast
qed

text \<open>An instance: node 1 is a Unidirectional neighbour of node 0 and lists node 0.\<close>

theorem C3_hello_twice_witness:
  "1 \<in> fmdom' (oneHopNeighbors ((NewNode 0 \<lparr>msg = ''hi'', delay = 30, NodeMsg.dst = 2\<rparr>)
          \<lparr>oneHopNeighbors := fmupd 1 \<lparr>neighborID = 1, state = Unidirectional,
                                       OneHopNeighborEntry.holdUntil = 15\<rparr> fmempty,
           twoHopNeighbors := fmupd 1 fmempty fmempty\<rparr>)) \<and>
   handleHello ((NewNode 0 \<lparr>msg = ''hi'', delay = 30, NodeMsg.dst = 2\<rparr>)
          \<lparr>oneHopNeighbors := fmupd 1 \<lparr>neighborID = 1, state = Unidirectional,
                                       OneHopNeighborEntry.holdUntil = 15\<rparr> fmempty,
           twoHopNeighbors := fmupd 1 fmempty fmempty\<rparr>)
      \<lparr>HelloMessage.src = 1, unidir = [], bidir = [0], mpr = []\<rparr>
     = Inr ((NewNode 0 \<lparr>msg = ''hi'', delay = 30, NodeMsg.dst = 2\<rparr>)
          \<lparr>oneHopNeighbors := fmupd 1 \<lparr>neighborID = 1, state = Bidirectional,
                                       OneHopNeighborEntry.holdUntil = 15\<rparr> fmempty,
           twoHopNeighbors := fmupd 1 fmempty fmempty\<rparr>) \<and>
   handleHello ((NewNode 0 \<lparr>msg = ''hi'', delay = 30, NodeMsg.dst = 2\<rparr>)
          \<lparr>oneHopNeighbors := fmupd 1 \<lparr>neighborID = 1, state = Bidirectional,
                                       OneHopNeighborEntry.holdUntil = 15\<rparr> fmempty,
           twoHopNeighbors := fmupd 1 fmempty fmempty\<rparr>)
      \<lparr>HelloMessage.src = 1, unidir = [], bidir = [0], mpr = []\<rparr>
     = Inr ((NewNode 0 \<lparr>msg = ''hi'', delay = 30, NodeMsg.dst = 2\<rparr>)
          \<lparr>oneHopNeighbors := fmupd 1 \<lparr>neighborID = 1, state = Bidirectional,
                                       OneHopNeighborEntry.holdUntil = 15\<rparr> fmempty,
           twoHopNeighbors := fmupd 1 fmempty fmempty\<rparr>)"
proof -
  let ?nm = "\<lparr>msg = ''hi'', delay = 30, NodeMsg.dst = 2\<rparr>"
  let ?n = "(NewNode 0 ?nm)
          \<lparr>oneHopNeighbors := fmupd 1 \<lparr>neighborID = 1, state = Unidirectional,
                                       OneHopNeighborEntry.holdUntil = 15\<rparr> fmempty,
           twoHopNeighbors := fmupd 1 fmempty fmempty\<rparr>"
  let ?n' = "(NewNode 0 ?nm)
          \<lparr>oneHopNeighbors := fmupd 1 \<lparr>neighborID = 1, state = Bidirectional,
                                       OneHopNeighborEntry.holdUntil = 15\<rparr> fmempty,
           twoHopNeighbors := fmupd 1 fmempty fmempty\<rparr>"
  let ?m = "\<lparr>HelloMessage.src = 1, unidir = [], bidir = [0], mpr = []\<rparr>"
  have d: "1 \<in> fmdom' (oneHopNeighbors ?n)" by simp
  then have c: "HelloMessage.src ?m \<in> fmdom' (oneHopNeighbors ?n) \<or>
           id' ?n \<notin> set (unidir ?m @ bidir ?m @ mpr ?m)" by simp
  have f: "handleHello ?n ?m = Inr ?n'" by code_simp
  from C3_hello_twice [OF c] f have "handleHello ?n' ?m = Inr ?n'" by auto
  with d f show ?thesis by blast
qed

text \<open>
  Without the condition the claim fails: the first HELLO of a new source enters it as
  Unidirectional without looking at the lists, and the same HELLO again, now from a
  known source that lists the node, promotes the entry to Bidirectional.
\<close>

theorem C3_first_hello_counterexample:
  "handleHello (NewNode 0 \<lparr>msg = ''hi'', delay = 30, NodeMsg.dst = 2\<rparr>)
      \<lparr>HelloMessage.src = 1, unidir = [], bidir = [0], mpr = []\<rparr>
     = Inr ((NewNode 0 \<lparr>msg = ''hi'', delay = 30, NodeMsg.dst = 2\<rparr>)
          \<lparr>oneHopNeighbors := fmupd 1 \<lparr>neighborID = 1, state = Unidirectional,
                                       OneHopNeighborEntry.holdUntil = 15\<rparr> fmempty,
           twoHopNeighbors := fmupd 1 fmempty fmempty\<rparr>) \<and>
   handleHello ((NewNode 0 \<lparr>msg = ''hi'', delay = 30, NodeMsg.dst = 2\<rparr>)
          \<lparr>oneHopNeighbors := fmupd 1 \<lparr>neighborID = 1, state = Unidirectional,
                                       OneHopNeighborEntry.holdUntil = 15\<rparr> fmempty,
           twoHopNeighbors := fmupd 1 fmempty fmempty\<rparr>)
      \<lparr>HelloMessage.src = 1, unidir = [], bidir = [0], mpr = []\<rparr>
     = Inr ((NewNode 0 \<lparr>msg = ''hi'', delay = 30, NodeMsg.dst = 2\<rparr>)
          \<lparr>oneHopNeighbors := fmupd 1 \<lparr>neighborID = 1, state = Bidirectional,
                                       OneHopNeighborEntry.holdUntil = 15\<rparr> fmempty,
           twoHopNeighbors := fmupd 1 fmempty fmempty\<rparr>) \<and>
   (NewNode 0 \<lparr>msg = ''hi'', delay = 30, NodeMsg.dst = 2\<rparr>)
          \<lparr>oneHopNeighbors := fmupd 1 \<lparr>neighborID = 1, state = Unidirectional,
                                       OneHopNeighborEntry.holdUntil = 15\<rparr> fmempty,
           twoHopNeighbors := fmupd 1 fmempty fmempty\<rparr>
     \<noteq> (NewNode 0 \<lparr>msg = ''hi'', delay = 30, NodeMsg.dst = 2\<rparr>)
          \<lparr>oneHopNeighbors := fmupd 1 \<lparr>neighborID = 1, state = Bidirectional,
                                       OneHopNeighborEntry.holdUntil = 15\<rparr> fmempty,
           twoHopNeighbors := fmupd 1 fmempty fmempty\<rparr>"
  by code_simp

end
